theory Spec2Isabelle
  imports Complex_Main "HOL-Library.Multiset"
begin

section \<open>Python values\<close>

text \<open>
  A Python \<^verbatim>\<open>str\<close> is a sequence of Unicode code points, and \<^verbatim>\<open>len\<close> counts code
  points; the texts handled here mix Latin and CJK script. A string is therefore a list
  of code points. \<open>ustr\<close> turns an ASCII literal into such a list.
\<close>

type_synonym ustring = "nat list"

definition ustr :: "string \<Rightarrow> ustring" where
  "ustr s = map of_char s"

text \<open>
  A Python \<^verbatim>\<open>float\<close>: a finite value (taken as the real number it denotes; the rounding
  of binary64 is not part of the model), the two infinities and NaN, which
  \<^verbatim>\<open>json.loads\<close> accepts as \<^verbatim>\<open>Infinity\<close>, \<^verbatim>\<open>-Infinity\<close> and \<^verbatim>\<open>NaN\<close>.
  \<open>py_ge\<close> is the operator \<^verbatim>\<open>>=\<close>.
\<close>

datatype pyfloat = Fin real | PosInf | NegInf | NaN

fun py_ge :: "pyfloat \<Rightarrow> pyfloat \<Rightarrow> bool" where
  "py_ge NaN y = False"
| "py_ge x NaN = False"
| "py_ge PosInf y = True"
| "py_ge x NegInf = True"
| "py_ge (Fin a) (Fin b) = (b \<le> a)"
| "py_ge (Fin a) PosInf = False"
| "py_ge NegInf y = False"

text \<open>
  The values \<^verbatim>\<open>json.loads\<close> produces, which the filter stores without checking their
  type: the fields \<^verbatim>\<open>issues\<close> and \<^verbatim>\<open>reason\<close> of a result hold whatever the decoded
  object held.
\<close>

datatype pyval =
    PNone
  | PBool bool
  | PInt int
  | PFloat pyfloat
  | PStr ustring
  | PList "pyval list"
  | PDict "(ustring \<times> pyval) list"

text \<open>An exception is its class and its message (what \<^verbatim>\<open>str(e)\<close> returns).\<close>

datatype exn_class =
  JSONDecodeError | ValueError | KeyError | TypeError | OverflowError | RecursionError |
  TimeoutError | OtherError

datatype pyexn = Exn exn_class ustring

fun exn_kind :: "pyexn \<Rightarrow> exn_class" where
  "exn_kind (Exn k m) = k"

fun exn_str :: "pyexn \<Rightarrow> ustring" where
  "exn_str (Exn k m) = m"

section \<open>String operations of the Python runtime\<close>

text \<open>
  \<^verbatim>\<open>str.isspace\<close> on one code point; \<^verbatim>\<open>str.strip\<close>, \<^verbatim>\<open>str.split\<close> and the regular
  expression classes \<^verbatim>\<open>\s\<close> and \<^verbatim>\<open>\S\<close> all use this table.
\<close>

definition py_isspace :: "nat \<Rightarrow> bool" where
  "py_isspace c =
     ((9 \<le> c \<and> c \<le> 13) \<or> (28 \<le> c \<and> c \<le> 32) \<or> c = 133 \<or> c = 160 \<or> c = 5760 \<or>
      (8192 \<le> c \<and> c \<le> 8202) \<or> c = 8232 \<or> c = 8233 \<or> c = 8239 \<or> c = 8287 \<or> c = 12288)"

definition non_space :: "nat \<Rightarrow> bool" where
  "non_space c = (\<not> py_isspace c)"

definition py_strip :: "ustring \<Rightarrow> ustring" where
  "py_strip s = rev (dropWhile py_isspace (rev (dropWhile py_isspace s)))"

text \<open>\<^verbatim>\<open>s.split()\<close>: the maximal runs of non-space code points, \<open>w\<close> being the run read so far.\<close>

fun split_acc :: "ustring \<Rightarrow> ustring \<Rightarrow> ustring list" where
  "split_acc w [] = (if w = [] then [] else [w])"
| "split_acc w (c # cs) =
     (if py_isspace c then (if w = [] then split_acc [] cs else w # split_acc [] cs)
      else split_acc (w @ [c]) cs)"

definition py_split :: "ustring \<Rightarrow> ustring list" where
  "py_split s = split_acc [] s"

definition starts_with :: "ustring \<Rightarrow> ustring \<Rightarrow> bool" where
  "starts_with p s = (take (length p) s = p)"

text \<open>\<^verbatim>\<open>word in text\<close>: \<open>w\<close> occurs in \<open>s\<close> as a substring.\<close>

fun contains :: "ustring \<Rightarrow> ustring \<Rightarrow> bool" where
  "contains w [] = (w = [])"
| "contains w (c # cs) = (starts_with w (c # cs) \<or> contains w cs)"

text \<open>
  The tables of the Unicode character database behind the classes \<^verbatim>\<open>\d\<close> (decimal
  digits) and \<^verbatim>\<open>\w\<close> (alphanumerics and the underscore) are large and depend on the
  Unicode version; they are parameters of the model.
\<close>

record unicode_db =
  isdecimal :: "nat \<Rightarrow> bool"
  isalnum :: "nat \<Rightarrow> bool"

definition is_word :: "unicode_db \<Rightarrow> nat \<Rightarrow> bool" where
  "is_word uni c = (isalnum uni c \<or> c = 95)"

text \<open>
  Matching one code point against a literal of a pattern compiled with
  \<^verbatim>\<open>re.IGNORECASE\<close>. Ideographs and the space have no case. An ASCII letter matches
  both of its cases; besides, \<^verbatim>\<open>i\<close> matches U+0130 and U+0131, \<^verbatim>\<open>s\<close> matches U+017F
  and \<^verbatim>\<open>k\<close> matches U+212A.
\<close>

definition ascii_lower :: "nat \<Rightarrow> nat" where
  "ascii_lower c = (if 65 \<le> c \<and> c \<le> 90 then c + 32 else c)"

definition ci_match :: "nat \<Rightarrow> nat \<Rightarrow> bool" where
  "ci_match p c =
     (let l = ascii_lower p in
      if 97 \<le> l \<and> l \<le> 122 then
        (c = l \<or> c + 32 = l \<or> (l = 105 \<and> (c = 304 \<or> c = 305)) \<or> (l = 115 \<and> c = 383) \<or>
         (l = 107 \<and> c = 8490))
      else c = p)"

definition ci_starts_with :: "ustring \<Rightarrow> ustring \<Rightarrow> bool" where
  "ci_starts_with p s = (length p \<le> length s \<and> list_all2 ci_match p (take (length p) s))"

section \<open>Helper methods of the filter\<close>

text \<open>
  \<^verbatim>\<open>_remove_urls_from_text\<close> is \<^verbatim>\<open>re.sub(r'https?://\S+', '', text).strip()\<close>.
  \<open>url_match s\<close> matches the pattern at the start of \<open>s\<close> and returns what follows the
  match: the scheme, then at least one non-space code point, then every further non-space
  code point (the quantifier is greedy and nothing follows it). \<open>re_sub_urls\<close> is the
  left-to-right scan of \<^verbatim>\<open>re.sub\<close>: a match is dropped and the scan goes on behind it,
  otherwise one code point is kept.
\<close>

definition url_match :: "ustring \<Rightarrow> ustring option" where
  "url_match s =
     (let body = (if starts_with (ustr ''https://'') s then Some (drop 8 s)
                  else if starts_with (ustr ''http://'') s then Some (drop 7 s)
                  else None)
      in case body of
           None \<Rightarrow> None
         | Some b \<Rightarrow> (if takeWhile non_space b = [] then None else Some (dropWhile non_space b)))"

function re_sub_urls :: "ustring \<Rightarrow> ustring" where
  "re_sub_urls [] = []"
| "re_sub_urls (c # cs) =
     (case url_match (c # cs) of
        Some rest \<Rightarrow> re_sub_urls rest
      | None \<Rightarrow> c # re_sub_urls cs)"
  by pat_completeness auto
termination
proof (relation "measure length")
  show "wf (measure (length :: ustring \<Rightarrow> nat))"
    by simp
next
  fix c :: nat and cs rest :: ustring
  assume m: "url_match (c # cs) = Some rest"
  have cut: "length (dropWhile non_space (drop n s)) < length s"
    if "takeWhile non_space (drop n s) \<noteq> []" and "0 < n" for n and s :: ustring
  proof -
    from that(1) have "drop n s \<noteq> []"
      by auto
    then have "n < length s"
      by simp
    moreover have "length (dropWhile non_space (drop n s)) \<le> length (drop n s)"
      by (rule length_dropWhile_le)
    ultimately show ?thesis
      using that(2) by simp
  qed
  from m have "length rest < length (c # cs)"
    unfolding url_match_def Let_def
    using cut [of 8 "c # cs"] cut [of 7 "c # cs"]
    by (simp split: if_splits)
  then show "(rest, c # cs) \<in> measure length"
    by simp
next
  fix c :: nat and cs :: ustring
  show "(cs, c # cs) \<in> measure length"
    by simp
qed

definition remove_urls_from_text :: "ustring \<Rightarrow> ustring" where
  "remove_urls_from_text text = py_strip (re_sub_urls text)"

text \<open>
  \<^verbatim>\<open>_is_chinese_text\<close>: the code points U+4E00 to U+9FFF are counted in the whole text and
  divided by the length of the stripped text. The quotient is compared with 0.3 exactly;
  on binary64 the comparison gives the same answer for every text of fewer than
  \<open>10^15\<close> code points.
\<close>

definition is_cjk :: "nat \<Rightarrow> bool" where
  "is_cjk c = (19968 \<le> c \<and> c \<le> 40959)"

definition is_chinese_text :: "ustring \<Rightarrow> bool" where
  "is_chinese_text text =
     (let chinese_chars = length (filter is_cjk text);
          total_chars = length (py_strip text)
      in if total_chars = 0 then False
         else real chinese_chars / real total_chars > 3 / 10)"

text \<open>
  \<^verbatim>\<open>_has_clear_context\<close>. The opinion words are
  U+8BA4 U+4E3A, U+89C9 U+5F97, U+540C U+610F, U+53CD U+5BF9 and four English verbs.
  \<open>quoted_scan\<close> searches the pattern \<^verbatim>\<open>"[^"]+"\<close>: \<open>opened\<close> says that a quote has been
  read, \<open>filled\<close> that another code point has been read since the last quote.
  \<open>specific_info\<close> is the search of \<^verbatim>\<open>\d+|"[^"]+"|Q|\?\<close>, where \<open>Q\<close> is the full-width question mark U+FF1F.
\<close>

definition opinion_words :: "ustring list" where
  "opinion_words =
     [[35748, 20026], [35273, 24471], [21516, 24847], [21453, 23545],
      ustr ''think'', ustr ''believe'', ustr ''agree'', ustr ''disagree'']"

fun quoted_scan :: "bool \<Rightarrow> bool \<Rightarrow> ustring \<Rightarrow> bool" where
  "quoted_scan opened filled [] = False"
| "quoted_scan opened filled (c # cs) =
     (if c = 34 then (if opened \<and> filled then True else quoted_scan True False cs)
      else quoted_scan opened opened cs)"

definition specific_info :: "unicode_db \<Rightarrow> ustring \<Rightarrow> bool" where
  "specific_info uni text =
     (list_ex (isdecimal uni) text \<or> quoted_scan False False text \<or>
      list_ex (\<lambda>c. c = 65311) text \<or> list_ex (\<lambda>c. c = 63) text)"

definition has_clear_context :: "unicode_db \<Rightarrow> ustring \<Rightarrow> bool" where
  "has_clear_context uni text =
     (if length text > 30 then True
      else if list_ex (\<lambda>word. contains word text) opinion_words then True
      else if specific_info uni text then True
      else False)"

text \<open>
  \<^verbatim>\<open>_has_unclear_external_reference\<close>. \<open>cjk_vague dem\<close> is the pattern
  \<^verbatim>\<open>^dem[ABC]\w{1,3}\<close> for a demonstrative \<open>dem\<close> and the intensifiers U+771F, U+592A
  and U+5F88 as \<open>A\<close>, \<open>B\<close>, \<open>C\<close>, and \<open>en_vague dem\<close> is
  \<^verbatim>\<open>^dem is (so|very|really)\<close>, both matched at the start of the text and ignoring case.
  The demonstratives are U+8FD9 U+4E2A, U+90A3 U+4E2A, U+5B83, This, That and It.
\<close>

definition cjk_vague :: "unicode_db \<Rightarrow> ustring \<Rightarrow> ustring \<Rightarrow> bool" where
  "cjk_vague uni dem text =
     (starts_with dem text \<and>
      (case drop (length dem) text of
         a # b # rest \<Rightarrow> (a = 30495 \<or> a = 22826 \<or> a = 24456) \<and> is_word uni b
       | _ \<Rightarrow> False))"

definition en_vague :: "ustring \<Rightarrow> ustring \<Rightarrow> bool" where
  "en_vague dem text =
     list_ex (\<lambda>adv. ci_starts_with (dem @ ustr '' is '' @ adv) text)
       [ustr ''so'', ustr ''very'', ustr ''really'']"

definition vague_patterns :: "unicode_db \<Rightarrow> (ustring \<Rightarrow> bool) list" where
  "vague_patterns uni =
     [cjk_vague uni [36825, 20010], cjk_vague uni [37027, 20010], cjk_vague uni [23427],
      en_vague (ustr ''This''), en_vague (ustr ''That''), en_vague (ustr ''It'')]"

fun vague_loop :: "(ustring \<Rightarrow> bool) list \<Rightarrow> ustring \<Rightarrow> bool" where
  "vague_loop [] text = False"
| "vague_loop (pattern # patterns) text =
     (if pattern text then (if length text < 30 then True else vague_loop patterns text)
      else vague_loop patterns text)"

definition has_unclear_external_reference :: "unicode_db \<Rightarrow> ustring \<Rightarrow> bool" where
  "has_unclear_external_reference uni text = vague_loop (vague_patterns uni) (py_strip text)"

section \<open>Data model\<close>

text \<open>
  \<^verbatim>\<open>QualityFilterResult\<close>. Its \<^verbatim>\<open>__post_init__\<close> replaces an \<^verbatim>\<open>issues\<close> that is
  \<^verbatim>\<open>None\<close> by the empty list; \<open>mk_result\<close> is the constructor call.
\<close>

record QualityFilterResult =
  passed :: bool
  score :: "pyfloat option"
  issues :: pyval
  reason :: pyval

definition mk_result :: "bool \<Rightarrow> pyfloat option \<Rightarrow> pyval \<Rightarrow> pyval \<Rightarrow> QualityFilterResult" where
  "mk_result p s i r =
     \<lparr>passed = p, score = s, issues = (if i = PNone then PList [] else i), reason = r\<rparr>"

text \<open>
  \<^verbatim>\<open>Tweet\<close> and \<^verbatim>\<open>Author\<close>. Time stamps are opaque numbers; the three quality fields are
  the annotations the filter writes.
\<close>

record Author =
  username :: ustring
  user_id :: ustring
  name :: ustring
  followers :: "int option"

record Tweet =
  tweet_id :: ustring
  author :: Author
  "text" :: ustring
  created_at :: int
  like_count :: int
  retweet_count :: int
  reply_count :: int
  conversation_id :: ustring
  trending_score :: pyfloat
  discovered_at :: "int option"
  is_reply :: bool
  in_reply_to_status_id :: "ustring option"
  quoted_tweet_id :: "ustring option"
  media :: "pyval list"
  urls :: "ustring list"
  has_quoted_content :: bool
  quality_score :: "pyfloat option"
  quality_issues :: pyval
  filtered_reason :: pyval

text \<open>
  The attributes \<^verbatim>\<open>__init__\<close> resolves from the configuration dictionary, and the
  dictionary's own key \<^verbatim>\<open>enabled\<close>.
\<close>

record filter_config =
  enabled :: bool
  min_text_length :: int
  filter_media_only :: bool
  filter_reply_without_context :: bool
  filter_external_references :: bool
  ai_enabled :: bool
  min_quality_score :: pyfloat
  batch_size :: int
  max_concurrent :: int
  model :: ustring
  timeout_seconds :: pyfloat
  on_failure :: ustring

section \<open>The rule engine\<close>

text \<open>\<^verbatim>\<open>str\<close> of an integer, for the reasons built by f-strings.\<close>

fun digits :: "nat \<Rightarrow> ustring" where
  "digits n = (if n < 10 then [48 + n] else digits (n div 10) @ [48 + n mod 10])"

definition py_str_int :: "int \<Rightarrow> ustring" where
  "py_str_int i = (if i < 0 then 45 # digits (nat (- i)) else digits (nat i))"

text \<open>The reasons attached to a rule failure (Chinese sentences, given by code point).\<close>

definition reason_media_only :: ustring where
  "reason_media_only =
     [20165, 21253, 21547, 23186, 20307, 65292, 25991, 26412, 20869, 23481, 19981, 36275]"

definition reason_reply :: ustring where
  "reason_reply = [22238, 22797, 25512, 25991, 32570, 20047, 19978, 19979, 25991]"

definition reason_short_chars :: "int \<Rightarrow> ustring" where
  "reason_short_chars n = [25512, 25991, 36807, 30701, 65288, 60] @ py_str_int n @ [23383, 65289]"

definition reason_short_words :: "int \<Rightarrow> ustring" where
  "reason_short_words n = [25512, 25991, 36807, 30701, 65288, 60] @ py_str_int n @ [35789, 65289]"

definition reason_vague :: ustring where
  "reason_vague = [21253, 21547, 27169, 31946, 30340, 22806, 37096, 24341, 29992]"

text \<open>
  \<^verbatim>\<open>_check_rules\<close>. Each rule of the source returns from the method when it fails, so the
  rules form one chain of alternatives in the source's order; the last line is
  \<^verbatim>\<open>QualityFilterResult(passed=True)\<close>.
\<close>

definition check_rules :: "filter_config \<Rightarrow> unicode_db \<Rightarrow> Tweet \<Rightarrow> QualityFilterResult" where
  "check_rules cfg uni tweet =
     (if filter_media_only cfg \<and>
         (length (media tweet) > 0 \<and>
          length (py_strip (remove_urls_from_text (text tweet))) < 10)
      then mk_result False None (PList [PStr (ustr ''media_only'')]) (PStr reason_media_only)
      else if filter_reply_without_context cfg \<and>
         (is_reply tweet \<and> \<not> has_quoted_content tweet) \<and>
         \<not> has_clear_context uni (remove_urls_from_text (text tweet))
      then mk_result False None (PList [PStr (ustr ''reply_without_context'')]) (PStr reason_reply)
      else
        let clean_text = remove_urls_from_text (text tweet) in
        if is_chinese_text clean_text \<and> int (length clean_text) < min_text_length cfg
        then mk_result False None (PList [PStr (ustr ''too_short'')])
               (PStr (reason_short_chars (min_text_length cfg)))
        else if \<not> is_chinese_text clean_text \<and>
                int (length (py_split clean_text)) < min_text_length cfg
        then mk_result False None (PList [PStr (ustr ''too_short'')])
               (PStr (reason_short_words (min_text_length cfg)))
        else if filter_external_references cfg \<and>
                has_unclear_external_reference uni (text tweet)
        then mk_result False None (PList [PStr (ustr ''vague_reference'')]) (PStr reason_vague)
        else mk_result True None PNone PNone)"

text \<open>
  The tweets of a list are objects, and the filter assigns to their attributes in place.
  A list of tweets is a list of references, the objects live in a store, and an object
  that occurs twice in a list is the same object. The state also records the calls of
  \<^verbatim>\<open>asyncio.gather\<close>, each with the tweets whose tasks it runs together.
\<close>

type_synonym ref = nat

record world =
  heap :: "ref \<Rightarrow> Tweet"
  gathered :: "ref list list"

definition assign :: "world \<Rightarrow> ref \<Rightarrow> (Tweet \<Rightarrow> Tweet) \<Rightarrow> world" where
  "assign w r upd = w\<lparr>heap := (heap w)(r := upd (heap w r))\<rparr>"

text \<open>\<^verbatim>\<open>_apply_rule_filters\<close>: the loop over the tweets with its two accumulators.\<close>

fun rule_loop ::
  "filter_config \<Rightarrow> unicode_db \<Rightarrow> ref list \<Rightarrow> ref list \<times> ref list \<Rightarrow> world \<Rightarrow>
   (ref list \<times> ref list) \<times> world" where
  "rule_loop cfg uni [] acc w = (acc, w)"
| "rule_loop cfg uni (tweet # tweets) (passed_acc, filtered_acc) w =
     (let result = check_rules cfg uni (heap w tweet) in
      if passed result then rule_loop cfg uni tweets (passed_acc @ [tweet], filtered_acc) w
      else rule_loop cfg uni tweets (passed_acc, filtered_acc @ [tweet])
             (assign w tweet
                (\<lambda>t. t\<lparr>filtered_reason := reason result, quality_issues := issues result\<rparr>)))"

definition apply_rule_filters ::
  "filter_config \<Rightarrow> unicode_db \<Rightarrow> ref list \<Rightarrow> world \<Rightarrow> (ref list \<times> ref list) \<times> world" where
  "apply_rule_filters cfg uni tweets w = rule_loop cfg uni tweets ([], []) w"

section \<open>Parsing the scorer's response\<close>

text \<open>
  The library calls of \<^verbatim>\<open>_parse_ai_response\<close> are parameters. \<^verbatim>\<open>json.loads\<close> on a
  string that starts with a brace returns a dictionary or raises an exception (\<open>Inl\<close>):
  \<^verbatim>\<open>JSONDecodeError\<close> for malformed text, \<^verbatim>\<open>RecursionError\<close> for text that is nested
  too deeply. \<^verbatim>\<open>float\<close> on a string returns a float or raises \<^verbatim>\<open>ValueError\<close>
  (\<open>Inl\<close> its message). \<open>float_of_int\<close> rounds an integer to the nearest float.
  \<open>float_type_error v\<close> is the message of the \<^verbatim>\<open>TypeError\<close> that \<^verbatim>\<open>float(v)\<close> raises.
\<close>

record pylib =
  json_loads :: "ustring \<Rightarrow> pyexn + (ustring \<times> pyval) list"
  float_of_str :: "ustring \<Rightarrow> ustring + pyfloat"
  float_of_int :: "int \<Rightarrow> pyfloat"
  float_type_error :: "pyval \<Rightarrow> ustring"

text \<open>
  \<^verbatim>\<open>re.search(r'\{[\s\S]*\}', response)\<close>: the match starts at the first opening brace
  and, the star being greedy, ends at the last closing brace behind it.
\<close>

definition extract_json :: "ustring \<Rightarrow> ustring option" where
  "extract_json response =
     (let from_brace = dropWhile (\<lambda>c. c \<noteq> 123) response;
          json_str = rev (dropWhile (\<lambda>c. c \<noteq> 125) (rev from_brace))
      in if json_str = [] then None else Some json_str)"

definition dict_get :: "(ustring \<times> pyval) list \<Rightarrow> ustring \<Rightarrow> pyval \<Rightarrow> pyval" where
  "dict_get d k dflt = (case map_of d k of None \<Rightarrow> dflt | Some v \<Rightarrow> v)"

text \<open>
  The builtin \<^verbatim>\<open>float\<close> on a decoded value. An integer up to \<open>2^53\<close> in absolute value
  is a float exactly, a larger one is rounded, and one too large for a float raises
  \<^verbatim>\<open>OverflowError\<close>; \<^verbatim>\<open>None\<close>, lists and dictionaries raise \<^verbatim>\<open>TypeError\<close>.
\<close>

fun py_float :: "pylib \<Rightarrow> pyval \<Rightarrow> pyexn + pyfloat" where
  "py_float lib (PFloat x) = Inr x"
| "py_float lib (PInt n) =
     (if 2 ^ 1024 - 2 ^ 970 \<le> \<bar>n\<bar>
      then Inl (Exn OverflowError (ustr ''int too large to convert to float''))
      else if \<bar>n\<bar> \<le> 2 ^ 53 then Inr (Fin (of_int n))
      else Inr (float_of_int lib n))"
| "py_float lib (PBool b) = Inr (Fin (if b then 1 else 0))"
| "py_float lib (PStr s) =
     (case float_of_str lib s of Inl m \<Rightarrow> Inl (Exn ValueError m) | Inr x \<Rightarrow> Inr x)"
| "py_float lib v = Inl (Exn TypeError (float_type_error lib v))"

definition reason_no_json :: ustring where
  "reason_no_json = [26080, 27861, 35299, 26512, 65, 73, 21709, 24212]"

definition reason_parse_failed :: "ustring \<Rightarrow> ustring" where
  "reason_parse_failed m = [35299, 26512, 65, 73, 21709, 24212, 22833, 36133, 58, 32] @ m"

text \<open>The body of the \<^verbatim>\<open>try\<close> statement of \<^verbatim>\<open>_parse_ai_response\<close>: \<open>Inl\<close> is a raise.\<close>

definition parse_try :: "filter_config \<Rightarrow> pylib \<Rightarrow> ustring \<Rightarrow> pyexn + QualityFilterResult" where
  "parse_try cfg lib response =
     (case extract_json response of
        None \<Rightarrow>
          Inr (mk_result True (Some (Fin 50)) (PList [PStr (ustr ''parse_error'')])
                 (PStr reason_no_json))
      | Some json_str \<Rightarrow>
          (case json_loads lib json_str of
             Inl e \<Rightarrow> Inl e
           | Inr data \<Rightarrow>
               (case py_float lib (dict_get data (ustr ''score'') (PInt 50)) of
                  Inl e \<Rightarrow> Inl e
                | Inr sc \<Rightarrow>
                    let iss = dict_get data (ustr ''issues'') (PList []);
                        analysis = dict_get data (ustr ''analysis'') (PStr []);
                        ok = py_ge sc (min_quality_score cfg)
                    in Inr (mk_result ok (Some sc) iss (if \<not> ok then analysis else PNone)))))"

text \<open>
  \<^verbatim>\<open>_parse_ai_response\<close>: the handler catches \<^verbatim>\<open>JSONDecodeError\<close>, \<^verbatim>\<open>ValueError\<close> and
  \<^verbatim>\<open>KeyError\<close>; any other exception leaves the method.
\<close>

definition parse_ai_response ::
  "filter_config \<Rightarrow> pylib \<Rightarrow> ustring \<Rightarrow> pyexn + QualityFilterResult" where
  "parse_ai_response cfg lib response =
     (case parse_try cfg lib response of
        Inr result \<Rightarrow> Inr result
      | Inl e \<Rightarrow>
          (if exn_kind e = JSONDecodeError \<or> exn_kind e = ValueError \<or> exn_kind e = KeyError
           then Inr (mk_result True (Some (Fin 50)) (PList [PStr (ustr ''parse_error'')])
                       (PStr (reason_parse_failed (exn_str e))))
           else Inl e))"

section \<open>The AI stage\<close>

definition reason_timeout :: ustring where
  "reason_timeout = [65, 73, 20998, 26512, 36229, 26102]"

definition reason_ai_exception :: "ustring \<Rightarrow> ustring" where
  "reason_ai_exception m = [65, 73, 20998, 26512, 24322, 24120, 58, 32] @ m"

definition reason_ai_failed :: "ustring \<Rightarrow> ustring" where
  "reason_ai_failed m = [65, 73, 20998, 26512, 22833, 36133, 58, 32] @ m"

text \<open>
  \<^verbatim>\<open>_analyze_tweet_quality\<close>. The call of the external scorer under
  \<^verbatim>\<open>asyncio.wait_for\<close> is the input \<open>outcome\<close>: the response text, or the exception
  the call raised, which is \<^verbatim>\<open>TimeoutError\<close> when the call exceeded
  \<^verbatim>\<open>timeout_seconds\<close>. The two prompts only feed that call. The first handler catches
  the timeout, the second every other exception, also one that the parser lets through.
\<close>

definition analyze_tweet_quality ::
  "filter_config \<Rightarrow> pylib \<Rightarrow> pyexn + ustring \<Rightarrow> QualityFilterResult" where
  "analyze_tweet_quality cfg lib outcome =
     (case (case outcome of
              Inl e \<Rightarrow> Inl e
            | Inr response \<Rightarrow> parse_ai_response cfg lib response) of
        Inr result \<Rightarrow> result
      | Inl e \<Rightarrow>
          (if exn_kind e = TimeoutError
           then mk_result (if on_failure cfg = ustr ''filter'' then False else True)
                  (Some (Fin 50)) (PList [PStr (ustr ''ai_timeout'')]) (PStr reason_timeout)
           else if on_failure cfg = ustr ''pass''
           then mk_result True None PNone PNone
           else mk_result False None (PList [PStr (ustr ''ai_error'')])
                  (PStr (reason_ai_exception (exn_str e)))))"

text \<open>
  The inner loop of \<^verbatim>\<open>_apply_ai_filters\<close> over \<^verbatim>\<open>zip(batch, results)\<close>. An element of
  \<^verbatim>\<open>results\<close>, as \<^verbatim>\<open>asyncio.gather\<close> with \<^verbatim>\<open>return_exceptions=True\<close> delivers it, is the
  result of a task or the exception the task raised.
\<close>

fun process_batch ::
  "filter_config \<Rightarrow> (ref \<times> (pyexn + QualityFilterResult)) list \<Rightarrow> ref list \<times> ref list \<Rightarrow>
   world \<Rightarrow> (ref list \<times> ref list) \<times> world" where
  "process_batch cfg [] acc w = (acc, w)"
| "process_batch cfg ((tweet, result) # rest) (passed_acc, filtered_acc) w =
     (case result of
        Inl e \<Rightarrow>
          (if on_failure cfg = ustr ''pass''
           then process_batch cfg rest (passed_acc @ [tweet], filtered_acc) w
           else process_batch cfg rest (passed_acc, filtered_acc @ [tweet])
                  (assign w tweet
                     (\<lambda>t. t\<lparr>filtered_reason := PStr (reason_ai_failed (exn_str e)),
                            quality_issues := PList [PStr (ustr ''ai_error'')]\<rparr>)))
      | Inr r \<Rightarrow>
          (if passed r
           then process_batch cfg rest (passed_acc @ [tweet], filtered_acc)
                  (assign w tweet (\<lambda>t. t\<lparr>quality_score := score r\<rparr>))
           else process_batch cfg rest (passed_acc, filtered_acc @ [tweet])
                  (assign w tweet
                     (\<lambda>t. t\<lparr>quality_score := score r, quality_issues := issues r,
                            filtered_reason := reason r\<rparr>))))"

text \<open>
  The outer loop \<^verbatim>\<open>for i in range(0, len(tweets), self.batch_size)\<close> for a positive step.
  \<open>results k\<close> is what the task of the tweet at index \<open>k\<close> delivers; the tasks of a batch
  are those of its slice \<^verbatim>\<open>tweets[i:i + batch_size]\<close>, and each pass of the loop makes one
  call of \<^verbatim>\<open>asyncio.gather\<close> with them.
\<close>

function batch_loop ::
  "filter_config \<Rightarrow> (nat \<Rightarrow> pyexn + QualityFilterResult) \<Rightarrow> ref list \<Rightarrow> nat \<Rightarrow> nat \<Rightarrow>
   ref list \<times> ref list \<Rightarrow> world \<Rightarrow> (ref list \<times> ref list) \<times> world" where
  "batch_loop cfg results tweets step i acc w =
     (if i < length tweets \<and> 0 < step
      then let batch = take step (drop i tweets);
               batch_results = map results [i ..< i + length batch];
               done = process_batch cfg (zip batch batch_results) acc
                        (w\<lparr>gathered := gathered w @ [batch]\<rparr>)
           in batch_loop cfg results tweets step (i + step) (fst done) (snd done)
      else (acc, w))"
  by pat_completeness auto
termination
  by (relation "measure (\<lambda>(cfg, results, tweets, step, i, acc, w). length tweets - i)") auto

text \<open>
  \<^verbatim>\<open>_apply_ai_filters\<close>. \<^verbatim>\<open>range\<close> raises \<^verbatim>\<open>ValueError\<close> for the step 0 and is empty
  for a negative step.
\<close>

definition apply_ai_filters ::
  "filter_config \<Rightarrow> (nat \<Rightarrow> pyexn + QualityFilterResult) \<Rightarrow> ref list \<Rightarrow> world \<Rightarrow>
   (pyexn + ref list \<times> ref list) \<times> world" where
  "apply_ai_filters cfg results tweets w =
     (if batch_size cfg = 0
      then (Inl (Exn ValueError (ustr ''range() arg 3 must not be zero'')), w)
      else if batch_size cfg < 0 then (Inr ([], []), w)
      else let done = batch_loop cfg results tweets (nat (batch_size cfg)) 0 ([], []) w
           in (Inr (fst done), snd done))"

section \<open>The pipeline\<close>

text \<open>
  \<^verbatim>\<open>filter_batch\<close>. \<open>results\<close> are the outcomes of the scoring tasks for the tweets that
  passed the rules, by their index among those.
\<close>

definition filter_batch ::
  "filter_config \<Rightarrow> unicode_db \<Rightarrow> (nat \<Rightarrow> pyexn + QualityFilterResult) \<Rightarrow> ref list \<Rightarrow>
   world \<Rightarrow> (pyexn + ref list \<times> ref list) \<times> world" where
  "filter_batch cfg uni results tweets w =
     (if tweets = [] then (Inr ([], []), w)
      else
        let rules_done = apply_rule_filters cfg uni tweets w;
            passed_rules = fst (fst rules_done);
            filtered_rules = snd (fst rules_done)
        in if ai_enabled cfg \<and> passed_rules \<noteq> []
           then (case apply_ai_filters cfg results passed_rules (snd rules_done) of
                   (Inl e, w') \<Rightarrow> (Inl e, w')
                 | (Inr (passed_ai, filtered_ai), w') \<Rightarrow>
                     (Inr (passed_ai, filtered_rules @ filtered_ai), w'))
           else (Inr (passed_rules, filtered_rules), snd rules_done))"

section \<open>Vocabulary of the specification\<close>

text \<open>
  The four rules of the engine in their fixed order. \<open>rule_enabled\<close> is the switch the
  configuration has for a rule (the length rule has none), \<open>rule_hit\<close> the condition under
  which the rule rejects a tweet, \<open>rule_failure\<close> the result of a rejection, and
  \<open>run_chain\<close> the first rejection along a list of rules.
\<close>

datatype rule = MediaOnly | ReplyWithoutContext | TextLength | VagueReference

definition rule_order :: "rule list" where
  "rule_order = [MediaOnly, ReplyWithoutContext, TextLength, VagueReference]"

fun rule_tag :: "rule \<Rightarrow> ustring" where
  "rule_tag MediaOnly = ustr ''media_only''"
| "rule_tag ReplyWithoutContext = ustr ''reply_without_context''"
| "rule_tag TextLength = ustr ''too_short''"
| "rule_tag VagueReference = ustr ''vague_reference''"

fun rule_enabled :: "filter_config \<Rightarrow> rule \<Rightarrow> bool" where
  "rule_enabled cfg MediaOnly = filter_media_only cfg"
| "rule_enabled cfg ReplyWithoutContext = filter_reply_without_context cfg"
| "rule_enabled cfg TextLength = True"
| "rule_enabled cfg VagueReference = filter_external_references cfg"

fun rule_hit :: "filter_config \<Rightarrow> unicode_db \<Rightarrow> Tweet \<Rightarrow> rule \<Rightarrow> bool" where
  "rule_hit cfg uni tweet MediaOnly =
     (length (media tweet) > 0 \<and> length (py_strip (remove_urls_from_text (text tweet))) < 10)"
| "rule_hit cfg uni tweet ReplyWithoutContext =
     (is_reply tweet \<and> \<not> has_quoted_content tweet \<and>
      \<not> has_clear_context uni (remove_urls_from_text (text tweet)))"
| "rule_hit cfg uni tweet TextLength =
     (if is_chinese_text (remove_urls_from_text (text tweet))
      then int (length (remove_urls_from_text (text tweet))) < min_text_length cfg
      else int (length (py_split (remove_urls_from_text (text tweet)))) < min_text_length cfg)"
| "rule_hit cfg uni tweet VagueReference = has_unclear_external_reference uni (text tweet)"

fun rule_reason :: "filter_config \<Rightarrow> Tweet \<Rightarrow> rule \<Rightarrow> ustring" where
  "rule_reason cfg tweet MediaOnly = reason_media_only"
| "rule_reason cfg tweet ReplyWithoutContext = reason_reply"
| "rule_reason cfg tweet TextLength =
     (if is_chinese_text (remove_urls_from_text (text tweet))
      then reason_short_chars (min_text_length cfg)
      else reason_short_words (min_text_length cfg))"
| "rule_reason cfg tweet VagueReference = reason_vague"

definition rule_failure :: "filter_config \<Rightarrow> Tweet \<Rightarrow> rule \<Rightarrow> QualityFilterResult" where
  "rule_failure cfg tweet r =
     \<lparr>passed = False, score = None, issues = PList [PStr (rule_tag r)],
      reason = PStr (rule_reason cfg tweet r)\<rparr>"

definition rule_pass :: QualityFilterResult where
  "rule_pass = \<lparr>passed = True, score = None, issues = PList [], reason = PNone\<rparr>"

definition run_chain ::
  "filter_config \<Rightarrow> unicode_db \<Rightarrow> Tweet \<Rightarrow> rule list \<Rightarrow> QualityFilterResult" where
  "run_chain cfg uni tweet rules =
     (case find (rule_hit cfg uni tweet) rules of
        None \<Rightarrow> rule_pass
      | Some r \<Rightarrow> rule_failure cfg tweet r)"

text \<open>
  Switching one rule off through the configuration: the three guarded rules by their
  flag, the length rule by the threshold 0, below which no text can fall.
\<close>

fun disable_rule :: "rule \<Rightarrow> filter_config \<Rightarrow> filter_config" where
  "disable_rule MediaOnly cfg = cfg\<lparr>filter_media_only := False\<rparr>"
| "disable_rule ReplyWithoutContext cfg = cfg\<lparr>filter_reply_without_context := False\<rparr>"
| "disable_rule TextLength cfg = cfg\<lparr>min_text_length := 0\<rparr>"
| "disable_rule VagueReference cfg = cfg\<lparr>filter_external_references := False\<rparr>"

text \<open>
  What the rule stage writes on a tweet it rejects, which tweets of a store it passes,
  and its write to the store.
\<close>

definition rule_annotate :: "filter_config \<Rightarrow> unicode_db \<Rightarrow> Tweet \<Rightarrow> Tweet" where
  "rule_annotate cfg uni tweet =
     tweet\<lparr>filtered_reason := reason (check_rules cfg uni tweet),
           quality_issues := issues (check_rules cfg uni tweet)\<rparr>"

definition rule_ok :: "filter_config \<Rightarrow> unicode_db \<Rightarrow> (ref \<Rightarrow> Tweet) \<Rightarrow> ref \<Rightarrow> bool" where
  "rule_ok cfg uni h r = passed (check_rules cfg uni (h r))"

definition rule_passed :: "filter_config \<Rightarrow> unicode_db \<Rightarrow> world \<Rightarrow> ref list \<Rightarrow> ref list" where
  "rule_passed cfg uni w posts = filter (rule_ok cfg uni (heap w)) posts"

definition rule_write ::
  "filter_config \<Rightarrow> unicode_db \<Rightarrow> (ref \<Rightarrow> Tweet) \<Rightarrow> ref \<Rightarrow> (ref \<Rightarrow> Tweet)" where
  "rule_write cfg uni h r = h(r := rule_annotate cfg uni (h r))"

text \<open>
  The classification the specification words: the share of CJK code points among the
  code points that are not blank.
\<close>

definition spec_cjk_dominant :: "ustring \<Rightarrow> bool" where
  "spec_cjk_dominant s =
     (filter non_space s \<noteq> [] \<and>
      real (length (filter is_cjk s)) / real (length (filter non_space s)) > 3 / 10)"

text \<open>
  The result the specification describes for a decoded object \<open>data\<close> whose score is
  the float \<open>sc\<close>.
\<close>

definition scored_result ::
  "filter_config \<Rightarrow> (ustring \<times> pyval) list \<Rightarrow> pyfloat \<Rightarrow> QualityFilterResult" where
  "scored_result cfg data sc =
     \<lparr>passed = py_ge sc (min_quality_score cfg),
      score = Some sc,
      issues = (case map_of data (ustr ''issues'') of
                  None \<Rightarrow> PList []
                | Some PNone \<Rightarrow> PList []
                | Some i \<Rightarrow> i),
      reason = (if py_ge sc (min_quality_score cfg) then PNone
                else (case map_of data (ustr ''analysis'') of
                        None \<Rightarrow> PStr []
                      | Some a \<Rightarrow> a))\<rparr>"

text \<open>
  The tweets of the AI stage paired with the outcomes of their tasks, whether an outcome
  sends its tweet to the passed list, the tweet after the assignments of that outcome,
  and the write to the store.
\<close>

definition indexed :: "(nat \<Rightarrow> 'r) \<Rightarrow> 'a list \<Rightarrow> ('a \<times> 'r) list" where
  "indexed results xs = zip xs (map results [0 ..< length xs])"

fun ai_passes :: "filter_config \<Rightarrow> pyexn + QualityFilterResult \<Rightarrow> bool" where
  "ai_passes cfg (Inl e) = (on_failure cfg = ustr ''pass'')"
| "ai_passes cfg (Inr r) = passed r"

fun ai_annotate :: "filter_config \<Rightarrow> Tweet \<times> (pyexn + QualityFilterResult) \<Rightarrow> Tweet" where
  "ai_annotate cfg (tweet, Inl e) =
     (if on_failure cfg = ustr ''pass'' then tweet
      else tweet\<lparr>filtered_reason := PStr (reason_ai_failed (exn_str e)),
                 quality_issues := PList [PStr (ustr ''ai_error'')]\<rparr>)"
| "ai_annotate cfg (tweet, Inr r) =
     (if passed r then tweet\<lparr>quality_score := score r\<rparr>
      else tweet\<lparr>quality_score := score r, quality_issues := issues r,
                 filtered_reason := reason r\<rparr>)"

definition ai_write ::
  "filter_config \<Rightarrow> (ref \<Rightarrow> Tweet) \<Rightarrow> ref \<times> (pyexn + QualityFilterResult) \<Rightarrow>
   (ref \<Rightarrow> Tweet)" where
  "ai_write cfg h x = h(fst x := ai_annotate cfg (h (fst x), snd x))"

text \<open>The consecutive slices \<^verbatim>\<open>xs[i:i + step]\<close> for \<open>i\<close>, \<open>i + step\<close>, ...\<close>

function slices :: "'a list \<Rightarrow> nat \<Rightarrow> nat \<Rightarrow> 'a list list" where
  "slices xs step i =
     (if i < length xs \<and> 0 < step then take step (drop i xs) # slices xs step (i + step)
      else [])"
  by pat_completeness auto
termination
  by (relation "measure (\<lambda>(xs, step, i). length xs - i)") auto

section \<open>Sample data\<close>

text \<open>
  The configuration and the tweets of the unit tests; character tables that cover ASCII
  and the CJK ideographs; a library that decodes the strings of a table and raises on
  every other string.
\<close>

definition default_config :: filter_config where
  "default_config =
     \<lparr>enabled = True, min_text_length = 20, filter_media_only = True,
      filter_reply_without_context = True, filter_external_references = True,
      ai_enabled = False, min_quality_score = Fin 60, batch_size = 5, max_concurrent = 3,
      model = ustr ''claude-sonnet-4-5-20250929'', timeout_seconds = Fin 30,
      on_failure = ustr ''pass''\<rparr>"

definition sample_uni :: unicode_db where
  "sample_uni =
     \<lparr>isdecimal = (\<lambda>c. 48 \<le> c \<and> c \<le> 57),
      isalnum = (\<lambda>c. (48 \<le> c \<and> c \<le> 57) \<or> (65 \<le> c \<and> c \<le> 90) \<or> (97 \<le> c \<and> c \<le> 122) \<or>
                     is_cjk c)\<rparr>"

definition recursion_message :: ustring where
  "recursion_message =
     ustr ''maximum recursion depth exceeded while decoding a JSON array from a unicode string''"

definition table_lib ::
  "(ustring \<times> (ustring \<times> pyval) list) list \<Rightarrow> ustring list \<Rightarrow> (ustring \<times> pyfloat) list \<Rightarrow>
   pylib" where
  "table_lib jsons deep floats =
     \<lparr>json_loads =
        (\<lambda>s. case map_of jsons s of
               Some d \<Rightarrow> Inr d
             | None \<Rightarrow>
                 (if s \<in> set deep
                  then Inl (Exn RecursionError recursion_message)
                  else Inl (Exn JSONDecodeError (ustr ''Expecting value'')))),
      float_of_str = (\<lambda>s. case map_of floats s of
                             None \<Rightarrow> Inl (ustr ''could not convert string to float: '' @ [39] @ s @ [39])
                           | Some x \<Rightarrow> Inr x),
      float_of_int = (\<lambda>n. Fin (of_int n)),
      float_type_error = (\<lambda>v. ustr ''float() argument must be a string or a real number'')\<rparr>"

definition create_tweet :: "ustring \<Rightarrow> bool \<Rightarrow> bool \<Rightarrow> pyval list \<Rightarrow> Tweet" where
  "create_tweet txt rep quo med =
     \<lparr>tweet_id = ustr ''1234567890'',
      author = \<lparr>username = ustr ''testuser'', user_id = ustr ''123456'',
                name = ustr ''Test User'', followers = Some 1000\<rparr>,
      text = txt, created_at = 0, like_count = 10, retweet_count = 5, reply_count = 2,
      conversation_id = ustr ''conv123'', trending_score = Fin 0, discovered_at = None,
      is_reply = rep, in_reply_to_status_id = None, quoted_tweet_id = None,
      media = med, urls = [], has_quoted_content = quo,
      quality_score = None, quality_issues = PList [], filtered_reason = PNone\<rparr>"

text \<open>
  Responses of the scorer: a score that is no number, a low score, text that is no JSON,
  and an object holding an array nested 100000 deep, on which \<^verbatim>\<open>json.loads\<close> raises
  \<^verbatim>\<open>RecursionError\<close>.
\<close>

definition response_bad_score :: ustring where
  \<open>response_bad_score = ustr ''{"score": "high"}''\<close>

definition response_low :: ustring where
  \<open>response_low = ustr ''{"score": 25, "issues": ["low_information"], "analysis": "Too vague"}''\<close>

definition response_unquoted :: ustring where
  \<open>response_unquoted = ustr ''Here you are: {score: 85}''\<close>

definition response_deep :: ustring where
  \<open>response_deep = ustr ''{"a": '' @ replicate 100000 91 @ replicate 100000 93 @ [125]\<close>

definition sample_lib :: pylib where
  "sample_lib =
     table_lib
       [(response_bad_score, [(ustr ''score'', PStr (ustr ''high''))]),
        (response_low,
         [(ustr ''score'', PInt 25),
          (ustr ''issues'', PList [PStr (ustr ''low_information'')]),
          (ustr ''analysis'', PStr (ustr ''Too vague''))])]
       [response_deep]
       []"

text \<open>
  A run of the AI stage: a store in which every object is the same two-word post, the
  posts 0 to 4, batches of two, one word required, and tasks that pass the posts at
  even positions with score 85, fail the post at position 1 with score 25 and raise at
  position 3.
\<close>

definition ai_config :: filter_config where
  "ai_config = default_config\<lparr>ai_enabled := True, batch_size := 2, min_text_length := 1\<rparr>"

definition sample_world :: world where
  "sample_world =
     \<lparr>heap = (\<lambda>r. create_tweet (ustr ''Great stuff!'') False False []), gathered = []\<rparr>"

definition five_posts :: "ref list" where
  "five_posts = [0, 1, 2, 3, 4]"

definition scored_pass :: QualityFilterResult where
  "scored_pass = \<lparr>passed = True, score = Some (Fin 85), issues = PList [], reason = PNone\<rparr>"

definition scored_fail :: QualityFilterResult where
  "scored_fail =
     \<lparr>passed = False, score = Some (Fin 25), issues = PList [PStr (ustr ''low_information'')],
      reason = PStr (ustr ''Too vague'')\<rparr>"

definition sample_results :: "nat \<Rightarrow> pyexn + QualityFilterResult" where
  "sample_results k =
     (if k = 1 then Inr scored_fail
      else if k = 3 then Inl (Exn OtherError (ustr ''API Error''))
      else Inr scored_pass)"

section \<open>The rule engine as a chain\<close>

lemmas str_eval = ustr_def py_strip_def py_isspace_def non_space_def py_split_def starts_with_def
  url_match_def remove_urls_from_text_def is_cjk_def is_chinese_text_def

lemmas rule_eval = str_eval check_rules_def mk_result_def has_clear_context_def opinion_words_def
  specific_info_def has_unclear_external_reference_def vague_patterns_def cjk_vague_def
  en_vague_def ci_starts_with_def ci_match_def ascii_lower_def is_word_def

lemma check_rules_chain:
  "check_rules cfg uni tweet = run_chain cfg uni tweet (filter (rule_enabled cfg) rule_order)"
  by (simp add: check_rules_def run_chain_def rule_order_def rule_failure_def rule_pass_def
      mk_result_def Let_def)

lemma find_filter: "find P (filter Q xs) = find (\<lambda>x. Q x \<and> P x) xs"
  by (induction xs) auto

lemma strip_no_leading: "dropWhile py_isspace (py_strip s) = py_strip s"
proof (cases "py_strip s")
  case Nil
  then show ?thesis by simp
next
  case (Cons z zs)
  define ys where "ys = dropWhile py_isspace s"
  have "rev ys = takeWhile py_isspace (rev ys) @ dropWhile py_isspace (rev ys)"
    by simp
  then have "ys = rev (dropWhile py_isspace (rev ys)) @ rev (takeWhile py_isspace (rev ys))"
    by (metis rev_append rev_rev_ident)
  then have ys: "ys = (z # zs) @ rev (takeWhile py_isspace (rev ys))"
    using Cons by (simp add: py_strip_def ys_def)
  then have "ys \<noteq> []" and "hd ys = z"
    by (metis Nil_is_append_conv list.distinct(1), metis append_Cons list.sel(1))
  then have "\<not> py_isspace z"
    unfolding ys_def by (metis hd_dropWhile)
  then show ?thesis
    using Cons by simp
qed

lemma strip_idem: "py_strip (py_strip s) = py_strip s"
proof -
  have "rev (py_strip s) = dropWhile py_isspace (rev (dropWhile py_isspace s))"
    by (simp add: py_strip_def)
  then have "dropWhile py_isspace (rev (py_strip s)) = rev (py_strip s)"
    by (simp add: dropWhile_idem)
  then show ?thesis
    by (metis py_strip_def rev_rev_ident strip_no_leading)
qed

lemma strip_clean: "py_strip (remove_urls_from_text t) = remove_urls_from_text t"
  by (simp add: remove_urls_from_text_def strip_idem)

text \<open>
  C3. The rules are tried in the order media_only, reply_without_context, too_short,
  vague_reference, a rule counting when the configuration enables it. When none of them
  rejects the tweet the result passes with no issue; otherwise the result fails and its
  issues are exactly the one tag of the first rule that rejects.
\<close>

theorem check_rules_first_failing_rule:
  "(case find (\<lambda>r. rule_enabled cfg r \<and> rule_hit cfg uni tweet r)
           [MediaOnly, ReplyWithoutContext, TextLength, VagueReference] of
      None \<Rightarrow>
        passed (check_rules cfg uni tweet) \<and> issues (check_rules cfg uni tweet) = PList []
    | Some r \<Rightarrow>
        \<not> passed (check_rules cfg uni tweet) \<and>
        issues (check_rules cfg uni tweet) = PList [PStr (rule_tag r)])"
proof -
  have "check_rules cfg uni tweet =
        (case find (\<lambda>r. rule_enabled cfg r \<and> rule_hit cfg uni tweet r) rule_order of
           None \<Rightarrow> rule_pass
         | Some r \<Rightarrow> rule_failure cfg tweet r)"
    by (simp only: check_rules_chain run_chain_def find_filter)
  then show ?thesis
    by (simp add: rule_order_def rule_pass_def rule_failure_def split: option.splits)
qed

theorem check_rules_first_failing_rule_witness:
  "\<not> passed (check_rules default_config sample_uni (create_tweet (ustr ''Agree!'') True False [])) \<and>
   issues (check_rules default_config sample_uni (create_tweet (ustr ''Agree!'') True False [])) =
     PList [PStr (ustr ''reply_without_context'')] \<and>
   rule_hit default_config sample_uni (create_tweet (ustr ''Agree!'') True False []) TextLength"
proof -
  have "find (\<lambda>r. rule_enabled default_config r \<and>
                  rule_hit default_config sample_uni (create_tweet (ustr ''Agree!'') True False []) r)
          [MediaOnly, ReplyWithoutContext, TextLength, VagueReference] = Some ReplyWithoutContext"
    by (simp add: rule_eval default_config_def sample_uni_def create_tweet_def)
  moreover have
    "rule_hit default_config sample_uni (create_tweet (ustr ''Agree!'') True False []) TextLength"
    by (simp add: rule_eval default_config_def sample_uni_def create_tweet_def)
  ultimately show ?thesis
    using check_rules_first_failing_rule
      [of default_config sample_uni "create_tweet (ustr ''Agree!'') True False []"]
    by simp
qed

text \<open>
  C8. Each of the four rules can be switched off through the configuration, the three
  guarded rules by their flag and the length rule by the threshold 0. The engine is the
  chain of the enabled rules in the fixed order, and with one rule switched off it is
  that chain without the rule: the other rules stay where they are and reject what they
  rejected before.
\<close>

theorem rule_switches:
  "check_rules cfg uni tweet = run_chain cfg uni tweet (filter (rule_enabled cfg) rule_order) \<and>
   check_rules (disable_rule r cfg) uni tweet =
     run_chain cfg uni tweet (remove1 r (filter (rule_enabled cfg) rule_order))"
proof
  show "check_rules cfg uni tweet =
      run_chain cfg uni tweet (filter (rule_enabled cfg) rule_order)"
    by (rule check_rules_chain)
  show "check_rules (disable_rule r cfg) uni tweet =
      run_chain cfg uni tweet (remove1 r (filter (rule_enabled cfg) rule_order))"
    by (cases r)
      (simp_all add: check_rules_def run_chain_def rule_order_def rule_failure_def rule_pass_def
        mk_result_def Let_def)
qed

theorem rule_switches_witness:
  "check_rules default_config sample_uni (create_tweet (ustr ''Great stuff!'') False False []) =
     rule_failure default_config (create_tweet (ustr ''Great stuff!'') False False []) TextLength \<and>
   check_rules (disable_rule TextLength default_config) sample_uni
     (create_tweet (ustr ''Great stuff!'') False False []) = rule_pass"
proof -
  have "run_chain default_config sample_uni (create_tweet (ustr ''Great stuff!'') False False [])
          (filter (rule_enabled default_config) rule_order) =
        rule_failure default_config (create_tweet (ustr ''Great stuff!'') False False [])
          TextLength"
    and "run_chain default_config sample_uni (create_tweet (ustr ''Great stuff!'') False False [])
          (remove1 TextLength (filter (rule_enabled default_config) rule_order)) = rule_pass"
    by (simp_all add: run_chain_def rule_order_def rule_failure_def rule_eval default_config_def
        sample_uni_def create_tweet_def)
  then show ?thesis
    using rule_switches [of default_config sample_uni
        "create_tweet (ustr ''Great stuff!'') False False []" TextLength]
    by (simp only:)
qed

section \<open>The length rule\<close>

text \<open>
  C6, as stated: the text counts as CJK-dominant when the CJK code points exceed 0.3 of
  the code points that are not blank. For five ideographs followed by eight letters
  set apart by blanks that share is 5 of 13, yet the method divides by the 21 code
  points of the text, blanks included, and answers no. The tweet has 21 characters,
  not fewer than the 20 required, and is rejected for its 9 words.
\<close>

theorem cjk_ratio_counterexample:
  "spec_cjk_dominant
     (remove_urls_from_text ([20013, 20013, 20013, 20013, 20013] @ ustr '' a b c d e f g h'')) \<and>
   \<not> is_chinese_text
     (remove_urls_from_text ([20013, 20013, 20013, 20013, 20013] @ ustr '' a b c d e f g h'')) \<and>
   \<not> int (length
     (remove_urls_from_text ([20013, 20013, 20013, 20013, 20013] @ ustr '' a b c d e f g h'')))
       < min_text_length default_config \<and>
   issues (check_rules default_config sample_uni
     (create_tweet ([20013, 20013, 20013, 20013, 20013] @ ustr '' a b c d e f g h'')
        False False [])) = PList [PStr (ustr ''too_short'')]"
  by (simp add: spec_cjk_dominant_def rule_eval default_config_def sample_uni_def
      create_tweet_def)

text \<open>
  C6, amended. The URL-stripped text is CJK-dominant exactly when it is not empty and its
  CJK code points exceed 0.3 of all its code points (blanks inside the text count; the
  text has none at its ends). When the two earlier rules do not reject the tweet, the
  result is the failure with the single issue too_short exactly when a CJK-dominant text
  has fewer than minTextLength characters, or another text fewer than minTextLength
  words.
\<close>

theorem length_rule_classification:
  assumes "\<not> (filter_media_only cfg \<and> rule_hit cfg uni tweet MediaOnly)"
    and "\<not> (filter_reply_without_context cfg \<and> rule_hit cfg uni tweet ReplyWithoutContext)"
  shows
    "is_chinese_text (remove_urls_from_text (text tweet)) =
       (remove_urls_from_text (text tweet) \<noteq> [] \<and>
        real (length (filter is_cjk (remove_urls_from_text (text tweet)))) /
          real (length (remove_urls_from_text (text tweet))) > 3 / 10) \<and>
     (issues (check_rules cfg uni tweet) = PList [PStr (ustr ''too_short'')]) =
       (if is_chinese_text (remove_urls_from_text (text tweet))
        then int (length (remove_urls_from_text (text tweet))) < min_text_length cfg
        else int (length (py_split (remove_urls_from_text (text tweet)))) < min_text_length cfg)"
proof -
  have ratio: "is_chinese_text (remove_urls_from_text (text tweet)) =
       (remove_urls_from_text (text tweet) \<noteq> [] \<and>
        real (length (filter is_cjk (remove_urls_from_text (text tweet)))) /
          real (length (remove_urls_from_text (text tweet))) > 3 / 10)"
    by (simp add: is_chinese_text_def strip_clean Let_def)
  have tags: "ustr ''vague_reference'' \<noteq> ustr ''too_short''"
    by (simp add: ustr_def)
  from assms have "(issues (check_rules cfg uni tweet) = PList [PStr (ustr ''too_short'')]) =
       (if is_chinese_text (remove_urls_from_text (text tweet))
        then int (length (remove_urls_from_text (text tweet))) < min_text_length cfg
        else int (length (py_split (remove_urls_from_text (text tweet)))) < min_text_length cfg)"
    by (auto simp add: check_rules_def mk_result_def Let_def tags)
  with ratio show ?thesis
    by (rule conjI)
qed

theorem length_rule_classification_witness:
  "is_chinese_text (remove_urls_from_text [22826, 26834, 20102, 65281]) \<and>
   issues (check_rules default_config sample_uni
     (create_tweet [22826, 26834, 20102, 65281] False False [])) =
     PList [PStr (ustr ''too_short'')]"
proof -
  have a: "\<not> (filter_media_only default_config \<and>
      rule_hit default_config sample_uni
        (create_tweet [22826, 26834, 20102, 65281] False False []) MediaOnly)"
    and b: "\<not> (filter_reply_without_context default_config \<and>
      rule_hit default_config sample_uni
        (create_tweet [22826, 26834, 20102, 65281] False False []) ReplyWithoutContext)"
    by (simp_all add: create_tweet_def)
  have t: "text (create_tweet [22826, 26834, 20102, 65281] False False []) =
      [22826, 26834, 20102, 65281]"
    by (simp add: create_tweet_def)
  have clean: "remove_urls_from_text [22826, 26834, 20102, 65281] = [22826, 26834, 20102, 65281]"
    by (simp add: str_eval)
  have cjk: "is_chinese_text [22826, 26834, 20102, 65281]"
    by (simp add: str_eval)
  show ?thesis
    using length_rule_classification [OF a b, THEN conjunct2]
    by (simp add: t clean cjk default_config_def)
qed

section \<open>The parser and the scoring task\<close>

lemma parse_try_no_json:
  "extract_json response = None \<Longrightarrow>
   parse_try cfg lib response =
     Inr \<lparr>passed = True, score = Some (Fin 50), issues = PList [PStr (ustr ''parse_error'')],
          reason = PStr reason_no_json\<rparr>"
  by (simp add: parse_try_def mk_result_def)

lemma parse_try_undecodable:
  "extract_json response = Some json_str \<Longrightarrow> json_loads lib json_str = Inl e \<Longrightarrow>
   parse_try cfg lib response = Inl e"
  by (simp add: parse_try_def)

lemma extract_braced: "extract_json (123 # s @ [125]) = Some (123 # s @ [125])"
  by (simp add: extract_json_def)

lemma parse_try_decoded:
  "extract_json response = Some json_str \<Longrightarrow> json_loads lib json_str = Inr data \<Longrightarrow>
   parse_try cfg lib response =
     (case py_float lib (dict_get data (ustr ''score'') (PInt 50)) of
        Inl e \<Rightarrow> Inl e
      | Inr sc \<Rightarrow> Inr (scored_result cfg data sc))"
  by (simp add: parse_try_def mk_result_def scored_result_def dict_get_def Let_def
      split: sum.splits option.splits pyval.splits)

text \<open>
  C4, as stated: whenever no JSON object can be decoded from the response, the result
  passes with score 50 whatever the failure policy. On an object that holds an array
  nested 100000 deep \<^verbatim>\<open>json.loads\<close> raises \<^verbatim>\<open>RecursionError\<close>, which the parser does not
  catch; the handler of the scoring task then applies the policy, and under the policy
  filter the result fails with the issue ai_error and no score.
\<close>

theorem deep_nesting_counterexample:
  "extract_json response_deep = Some response_deep \<and>
   json_loads sample_lib response_deep =
     Inl (Exn RecursionError recursion_message) \<and>
   analyze_tweet_quality (default_config\<lparr>on_failure := ustr ''filter''\<rparr>) sample_lib
     (Inr response_deep) =
     \<lparr>passed = False, score = None, issues = PList [PStr (ustr ''ai_error'')],
      reason = PStr (reason_ai_exception recursion_message)\<rparr>"
proof -
  have "response_deep =
      123 # ([34, 97, 34, 58, 32] @ replicate 100000 91 @ replicate 100000 93) @ [125]"
    by (simp add: response_deep_def ustr_def)
  then have x: "extract_json response_deep = Some response_deep"
    by (metis extract_braced)
  have "response_deep \<noteq> response_bad_score" and "response_deep \<noteq> response_low"
    by (simp_all add: response_deep_def response_bad_score_def response_low_def ustr_def)
  then have l: "json_loads sample_lib response_deep =
      Inl (Exn RecursionError recursion_message)"
    by (simp add: sample_lib_def table_lib_def)
  have "parse_try (default_config\<lparr>on_failure := ustr ''filter''\<rparr>) sample_lib response_deep =
      Inl (Exn RecursionError recursion_message)"
    using x l by (rule parse_try_undecodable)
  then have "analyze_tweet_quality (default_config\<lparr>on_failure := ustr ''filter''\<rparr>) sample_lib
     (Inr response_deep) =
     \<lparr>passed = False, score = None, issues = PList [PStr (ustr ''ai_error'')],
      reason = PStr (reason_ai_exception recursion_message)\<rparr>"
    by (simp add: analyze_tweet_quality_def parse_ai_response_def mk_result_def
        default_config_def ustr_def)
  with x l show ?thesis
    by blast
qed

text \<open>
  C4, amended. When the response holds no brace-delimited text, or \<^verbatim>\<open>json.loads\<close> rejects
  the text found as malformed (it raises \<^verbatim>\<open>JSONDecodeError\<close>), the parser returns, and
  the scoring task resolves to, a result with passed = true, score = 50 and the single
  issue parse_error, under every failure policy.
\<close>

theorem parse_failure_passes:
  assumes "extract_json response = None \<or>
     (\<exists>json_str e. extract_json response = Some json_str \<and> json_loads lib json_str = Inl e \<and>
        exn_kind e = JSONDecodeError)"
  shows "\<exists>why.
     parse_ai_response (cfg\<lparr>on_failure := policy\<rparr>) lib response =
       Inr \<lparr>passed = True, score = Some (Fin 50), issues = PList [PStr (ustr ''parse_error'')],
            reason = PStr why\<rparr> \<and>
     analyze_tweet_quality (cfg\<lparr>on_failure := policy\<rparr>) lib (Inr response) =
       \<lparr>passed = True, score = Some (Fin 50), issues = PList [PStr (ustr ''parse_error'')],
        reason = PStr why\<rparr>"
  using assms
proof
  assume "extract_json response = None"
  then show ?thesis
    by (simp add: analyze_tweet_quality_def parse_ai_response_def parse_try_no_json)
next
  assume "\<exists>json_str e. extract_json response = Some json_str \<and> json_loads lib json_str = Inl e \<and>
        exn_kind e = JSONDecodeError"
  then obtain json_str e where "extract_json response = Some json_str"
    and "json_loads lib json_str = Inl e" and kind: "exn_kind e = JSONDecodeError"
    by blast
  then have "parse_try (cfg\<lparr>on_failure := policy\<rparr>) lib response = Inl e"
    by (simp add: parse_try_undecodable)
  with kind show ?thesis
    by (simp add: analyze_tweet_quality_def parse_ai_response_def mk_result_def)
qed

theorem parse_failure_passes_witness:
  "passed (analyze_tweet_quality (default_config\<lparr>on_failure := ustr ''filter''\<rparr>) sample_lib
     (Inr response_unquoted)) \<and>
   score (analyze_tweet_quality (default_config\<lparr>on_failure := ustr ''filter''\<rparr>) sample_lib
     (Inr response_unquoted)) = Some (Fin 50) \<and>
   issues (analyze_tweet_quality (default_config\<lparr>on_failure := ustr ''filter''\<rparr>) sample_lib
     (Inr response_unquoted)) = PList [PStr (ustr ''parse_error'')]"
proof -
  have x: "extract_json response_unquoted = Some (ustr ''{score: 85}'')"
    by (simp add: extract_json_def response_unquoted_def ustr_def)
  have "json_loads sample_lib (ustr ''{score: 85}'') =
      Inl (Exn JSONDecodeError (ustr ''Expecting value''))"
    by (simp add: sample_lib_def table_lib_def response_bad_score_def response_low_def
        response_deep_def ustr_def)
  with x have "extract_json response_unquoted = None \<or>
     (\<exists>json_str e. extract_json response_unquoted = Some json_str \<and>
        json_loads sample_lib json_str = Inl e \<and> exn_kind e = JSONDecodeError)"
    by simp
  from parse_failure_passes [OF this, where cfg = default_config and policy = "ustr ''filter''"]
  show ?thesis
    by auto
qed

text \<open>
  C5. A scoring call that exceeds the time limit raises \<^verbatim>\<open>TimeoutError\<close> out of
  \<^verbatim>\<open>wait_for\<close>; the task then resolves to score = 50, the single issue ai_timeout, the
  timeout reason, and passed exactly when the failure policy is not filter.
\<close>

theorem timeout_result:
  "analyze_tweet_quality cfg lib (Inl (Exn TimeoutError m)) =
     \<lparr>passed = (on_failure cfg \<noteq> ustr ''filter''), score = Some (Fin 50),
      issues = PList [PStr (ustr ''ai_timeout'')], reason = PStr reason_timeout\<rparr>"
  by (simp add: analyze_tweet_quality_def mk_result_def)

theorem timeout_result_witness:
  "\<not> passed (analyze_tweet_quality (default_config\<lparr>on_failure := ustr ''filter''\<rparr>) sample_lib
       (Inl (Exn TimeoutError []))) \<and>
   passed (analyze_tweet_quality default_config sample_lib (Inl (Exn TimeoutError [])))"
  using timeout_result [of "default_config\<lparr>on_failure := ustr ''filter''\<rparr>" sample_lib "[]"]
    timeout_result [of default_config sample_lib "[]"]
  by (simp add: default_config_def ustr_def)

text \<open>
  C7, as stated: a score that is no number is read as 50 and the result has
  passed = (score >= minQualityScore). For the response whose score is the string
  "high" and the threshold 60 the result has score 50 and yet passed = true, with a
  reason set.
\<close>

theorem invalid_score_counterexample:
  "extract_json response_bad_score = Some response_bad_score \<and>
   json_loads sample_lib response_bad_score = Inr [(ustr ''score'', PStr (ustr ''high''))] \<and>
   (\<exists>r. parse_ai_response default_config sample_lib response_bad_score = Inr r \<and>
        passed r \<and> score r = Some (Fin 50) \<and>
        \<not> py_ge (Fin 50) (min_quality_score default_config) \<and> reason r \<noteq> PNone)"
  by (simp add: parse_ai_response_def parse_try_def extract_json_def response_bad_score_def
      sample_lib_def table_lib_def dict_get_def mk_result_def default_config_def ustr_def)

text \<open>
  C7, amended. For a response whose JSON text is extracted and decoded: when the score is
  absent (then 50) or converts to a float, the result has that score,
  passed = (score >= minQualityScore), the decoded issues (the empty list when absent or
  null) and the decoded analysis (the empty string when absent) as reason exactly when
  not passed, no reason otherwise. When the score is a string that \<^verbatim>\<open>float\<close> rejects,
  the result is the parse_error fallback: passed = true and score = 50, whatever the
  threshold.
\<close>

theorem decoded_response_result:
  assumes "extract_json response = Some json_str"
    and "json_loads lib json_str = Inr data"
  shows
    "(map_of data (ustr ''score'') = None \<longrightarrow>
        parse_ai_response cfg lib response = Inr (scored_result cfg data (Fin 50))) \<and>
     (\<forall>v sc. map_of data (ustr ''score'') = Some v \<and> py_float lib v = Inr sc \<longrightarrow>
        parse_ai_response cfg lib response = Inr (scored_result cfg data sc)) \<and>
     (\<forall>s m. map_of data (ustr ''score'') = Some (PStr s) \<and> float_of_str lib s = Inl m \<longrightarrow>
        parse_ai_response cfg lib response =
          Inr \<lparr>passed = True, score = Some (Fin 50),
               issues = PList [PStr (ustr ''parse_error'')],
               reason = PStr (reason_parse_failed m)\<rparr>)"
  by (simp add: parse_ai_response_def parse_try_decoded [OF assms] dict_get_def mk_result_def)

theorem decoded_response_result_witness:
  "parse_ai_response default_config sample_lib response_low =
     Inr \<lparr>passed = False, score = Some (Fin 25),
          issues = PList [PStr (ustr ''low_information'')],
          reason = PStr (ustr ''Too vague'')\<rparr>"
proof -
  have x: "extract_json response_low = Some response_low"
    by (simp add: extract_json_def response_low_def ustr_def)
  have l: "json_loads sample_lib response_low =
      Inr [(ustr ''score'', PInt 25),
           (ustr ''issues'', PList [PStr (ustr ''low_information'')]),
           (ustr ''analysis'', PStr (ustr ''Too vague''))]"
    by (simp add: sample_lib_def table_lib_def response_bad_score_def response_low_def ustr_def)
  show ?thesis
    using decoded_response_result [OF x l, of default_config]
    by (simp add: scored_result_def default_config_def ustr_def)
qed

section \<open>The two stages in closed form\<close>

declare batch_loop.simps [simp del] slices.simps [simp del]

lemma check_rules_annotated:
  "check_rules cfg uni (t\<lparr>filtered_reason := a, quality_issues := b\<rparr>) = check_rules cfg uni t"
  by (simp add: check_rules_def Let_def)

lemma rule_ok_write: "rule_ok cfg uni (rule_write cfg uni h a) = rule_ok cfg uni h"
  by (rule ext) (simp add: rule_ok_def rule_write_def rule_annotate_def check_rules_annotated)

lemma rule_annotate_idem:
  "rule_annotate cfg uni (rule_annotate cfg uni t) = rule_annotate cfg uni t"
  by (simp add: rule_annotate_def check_rules_annotated)

lemma assign_rule_write:
  "assign w r (\<lambda>t. t\<lparr>filtered_reason := reason (check_rules cfg uni (heap w r)),
                     quality_issues := issues (check_rules cfg uni (heap w r))\<rparr>) =
   w\<lparr>heap := rule_write cfg uni (heap w) r\<rparr>"
  by (simp add: assign_def rule_write_def rule_annotate_def)

lemma rule_loop_split:
  "rule_loop cfg uni xs (p, f) w =
     ((p @ filter (rule_ok cfg uni (heap w)) xs,
       f @ filter (\<lambda>r. \<not> rule_ok cfg uni (heap w) r) xs),
      w\<lparr>heap := foldl (rule_write cfg uni) (heap w)
                    (filter (\<lambda>r. \<not> rule_ok cfg uni (heap w) r) xs)\<rparr>)"
proof (induction xs arbitrary: p f w)
  case Nil
  show ?case by simp
next
  case (Cons a xs)
  show ?case
  proof (cases "rule_ok cfg uni (heap w) a")
    case True
    then have "passed (check_rules cfg uni (heap w a))"
      by (simp add: rule_ok_def)
    with True show ?thesis
      by (simp add: Cons.IH)
  next
    case False
    then have "\<not> passed (check_rules cfg uni (heap w a))"
      by (simp add: rule_ok_def)
    with False show ?thesis
      by (simp add: Let_def assign_rule_write Cons.IH rule_ok_write)
  qed
qed

lemma apply_rule_filters_split:
  "apply_rule_filters cfg uni xs w =
     ((rule_passed cfg uni w xs, filter (\<lambda>r. \<not> rule_ok cfg uni (heap w) r) xs),
      w\<lparr>heap := foldl (rule_write cfg uni) (heap w)
                    (filter (\<lambda>r. \<not> rule_ok cfg uni (heap w) r) xs)\<rparr>)"
  by (simp add: apply_rule_filters_def rule_loop_split rule_passed_def)

lemma foldl_rule_write:
  "foldl (rule_write cfg uni) h xs r =
     (if r \<in> set xs then rule_annotate cfg uni (h r) else h r)"
proof (induction xs arbitrary: h)
  case Nil
  show ?case by simp
next
  case (Cons a xs)
  show ?case
    by (simp add: Cons.IH) (simp add: rule_write_def rule_annotate_idem)
qed

lemma assign_ai_write:
  "assign w r (\<lambda>t. ai_annotate cfg (t, res)) = w\<lparr>heap := ai_write cfg (heap w) (r, res)\<rparr>"
  by (simp add: assign_def ai_write_def)

lemma ai_write_pass_exn:
  "on_failure cfg = ustr ''pass'' \<Longrightarrow> ai_write cfg h (r, Inl e) = h"
  by (simp add: ai_write_def)

lemma process_batch_split:
  "process_batch cfg zs (p, f) w =
     ((p @ map fst (filter (\<lambda>x. ai_passes cfg (snd x)) zs),
       f @ map fst (filter (\<lambda>x. \<not> ai_passes cfg (snd x)) zs)),
      w\<lparr>heap := foldl (ai_write cfg) (heap w) zs\<rparr>)"
proof (induction zs arbitrary: p f w)
  case Nil
  show ?case by simp
next
  case (Cons z zs)
  obtain r res where z: "z = (r, res)"
    by (cases z)
  show ?case
  proof (cases res)
    case (Inl e)
    show ?thesis
    proof (cases "on_failure cfg = ustr ''pass''")
      case True
      then show ?thesis
        by (simp add: z Inl Cons.IH ai_write_pass_exn)
    next
      case False
      have "assign w r (\<lambda>t. t\<lparr>filtered_reason := PStr (reason_ai_failed (exn_str e)),
                                quality_issues := PList [PStr (ustr ''ai_error'')]\<rparr>) =
            w\<lparr>heap := ai_write cfg (heap w) (r, Inl e)\<rparr>"
        using False by (simp add: assign_def ai_write_def)
      with False show ?thesis
        by (simp add: z Inl Cons.IH)
    qed
  next
    case (Inr q)
    show ?thesis
    proof (cases "passed q")
      case True
      have "assign w r (\<lambda>t. t\<lparr>quality_score := score q\<rparr>) =
            w\<lparr>heap := ai_write cfg (heap w) (r, Inr q)\<rparr>"
        using True by (simp add: assign_def ai_write_def)
      with True show ?thesis
        by (simp add: z Inr Cons.IH)
    next
      case False
      have "assign w r (\<lambda>t. t\<lparr>quality_score := score q, quality_issues := issues q,
                                filtered_reason := reason q\<rparr>) =
            w\<lparr>heap := ai_write cfg (heap w) (r, Inr q)\<rparr>"
        using False by (simp add: assign_def ai_write_def)
      with False show ?thesis
        by (simp add: z Inr Cons.IH)
    qed
  qed
qed

lemma process_batch_acc:
  "process_batch cfg zs acc w =
     ((fst acc @ map fst (filter (\<lambda>x. ai_passes cfg (snd x)) zs),
       snd acc @ map fst (filter (\<lambda>x. \<not> ai_passes cfg (snd x)) zs)),
      w\<lparr>heap := foldl (ai_write cfg) (heap w) zs\<rparr>)"
  by (cases acc) (simp add: process_batch_split)

lemma length_indexed: "length (indexed results xs) = length xs"
  by (simp add: indexed_def)

lemma map_fst_indexed: "map fst (indexed results xs) = xs"
  by (simp add: indexed_def)

lemma nth_indexed: "k < length xs \<Longrightarrow> indexed results xs ! k = (xs ! k, results k)"
  by (simp add: indexed_def)

lemma slice_zip:
  "zip (take step (drop i tweets))
       (map results [i ..< i + length (take step (drop i tweets))]) =
   take step (drop i (indexed results tweets))"
  by (rule nth_equalityI) (auto simp add: indexed_def)

lemma slices_step:
  "i < length xs \<Longrightarrow> 0 < step \<Longrightarrow>
   slices xs step i = take step (drop i xs) # slices xs step (i + step)"
  by (subst slices.simps) simp

lemma slices_stop: "\<not> (i < length xs \<and> 0 < step) \<Longrightarrow> slices xs step i = []"
  by (subst slices.simps) simp

lemma batch_loop_split:
  "batch_loop cfg results tweets step i acc w =
     ((fst acc @ map fst (filter (\<lambda>x. ai_passes cfg (snd x))
                            (concat (slices (indexed results tweets) step i))),
       snd acc @ map fst (filter (\<lambda>x. \<not> ai_passes cfg (snd x))
                            (concat (slices (indexed results tweets) step i)))),
      w\<lparr>heap := foldl (ai_write cfg) (heap w) (concat (slices (indexed results tweets) step i)),
        gathered := gathered w @ slices tweets step i\<rparr>)"
proof (induction cfg results tweets step i acc w rule: batch_loop.induct)
  case (1 cfg results tweets step i acc w)
  show ?case
  proof (cases "i < length tweets \<and> 0 < step")
    case True
    define batch where "batch = take step (drop i tweets)"
    define zs where "zs = take step (drop i (indexed results tweets))"
    define d where "d = process_batch cfg zs acc (w\<lparr>gathered := gathered w @ [batch]\<rparr>)"
    have z: "zip batch (map results [i ..< i + length batch]) = zs"
      unfolding batch_def zs_def by (rule slice_zip)
    have unfold: "batch_loop cfg results tweets step i acc w =
        batch_loop cfg results tweets step (i + step) (fst d) (snd d)"
      by (subst batch_loop.simps)
        (simp only: True simp_thms if_True Let_def z d_def batch_def [symmetric])
    have ih: "batch_loop cfg results tweets step (i + step) (fst d) (snd d) =
        ((fst (fst d) @ map fst (filter (\<lambda>x. ai_passes cfg (snd x))
              (concat (slices (indexed results tweets) step (i + step)))),
          snd (fst d) @ map fst (filter (\<lambda>x. \<not> ai_passes cfg (snd x))
              (concat (slices (indexed results tweets) step (i + step))))),
         (snd d)\<lparr>heap := foldl (ai_write cfg) (heap (snd d))
              (concat (slices (indexed results tweets) step (i + step))),
            gathered := gathered (snd d) @ slices tweets step (i + step)\<rparr>)"
      using "1.IH" [OF True batch_def [unfolded batch_def] refl, folded batch_def,
          of "process_batch cfg (zip batch (map results [i ..< i + length batch])) acc
               (w\<lparr>gathered := gathered w @ [batch]\<rparr>)"]
      by (simp only: z d_def [symmetric])
    have s1: "slices (indexed results tweets) step i =
        zs # slices (indexed results tweets) step (i + step)"
      using True by (simp add: slices_step length_indexed zs_def)
    have s2: "slices tweets step i = batch # slices tweets step (i + step)"
      using True by (simp add: slices_step batch_def)
    have d: "d =
        ((fst acc @ map fst (filter (\<lambda>x. ai_passes cfg (snd x)) zs),
          snd acc @ map fst (filter (\<lambda>x. \<not> ai_passes cfg (snd x)) zs)),
         w\<lparr>gathered := gathered w @ [batch], heap := foldl (ai_write cfg) (heap w) zs\<rparr>)"
      by (simp add: d_def process_batch_acc)
    note unfold
    also note ih
    also have "((fst (fst d) @ map fst (filter (\<lambda>x. ai_passes cfg (snd x))
              (concat (slices (indexed results tweets) step (i + step)))),
          snd (fst d) @ map fst (filter (\<lambda>x. \<not> ai_passes cfg (snd x))
              (concat (slices (indexed results tweets) step (i + step))))),
         (snd d)\<lparr>heap := foldl (ai_write cfg) (heap (snd d))
              (concat (slices (indexed results tweets) step (i + step))),
            gathered := gathered (snd d) @ slices tweets step (i + step)\<rparr>) =
        ((fst acc @ map fst (filter (\<lambda>x. ai_passes cfg (snd x))
                            (concat (slices (indexed results tweets) step i))),
          snd acc @ map fst (filter (\<lambda>x. \<not> ai_passes cfg (snd x))
                            (concat (slices (indexed results tweets) step i)))),
         w\<lparr>heap := foldl (ai_write cfg) (heap w)
                       (concat (slices (indexed results tweets) step i)),
           gathered := gathered w @ slices tweets step i\<rparr>)"
      by (simp add: d s1 s2)
    finally show ?thesis .
  next
    case False
    have "batch_loop cfg results tweets step i acc w = (acc, w)"
      by (subst batch_loop.simps) (simp only: False if_False)
    moreover from False have "slices (indexed results tweets) step i = []"
      and "slices tweets step i = []"
      by (simp_all add: slices_stop length_indexed)
    ultimately show ?thesis
      by simp
  qed
qed

lemma slices_concat: "0 < step \<Longrightarrow> concat (slices xs step i) = drop i xs"
proof (induction xs step i rule: slices.induct)
  case (1 xs step i)
  show ?case
  proof (cases "i < length xs")
    case True
    have "take step (drop i xs) @ drop (step + i) xs = drop i xs"
      by (metis append_take_drop_id drop_drop)
    with True 1 show ?thesis
      by (simp add: slices_step add.commute)
  next
    case False
    then show ?thesis
      by (simp add: slices_stop)
  qed
qed

lemma slices_sizes: "b \<in> set (slices xs step i) \<Longrightarrow> 0 < length b \<and> length b \<le> step"
proof (induction xs step i rule: slices.induct)
  case (1 xs step i)
  show ?case
  proof (cases "i < length xs \<and> 0 < step")
    case True
    with "1.prems" have "b = take step (drop i xs) \<or> b \<in> set (slices xs step (i + step))"
      by (simp add: slices_step)
    then show ?thesis
      using True "1.IH" by auto
  next
    case False
    with "1.prems" show ?thesis
      by (simp add: slices_stop)
  qed
qed

lemma slices_full: "b \<in> set (butlast (slices xs step i)) \<Longrightarrow> length b = step"
proof (induction xs step i rule: slices.induct)
  case (1 xs step i)
  show ?case
  proof (cases "i < length xs \<and> 0 < step")
    case True
    show ?thesis
    proof (cases "slices xs step (i + step) = []")
      case True
      with \<open>i < length xs \<and> 0 < step\<close> "1.prems" show ?thesis
        by (simp add: slices_step)
    next
      case False
      then have more: "i + step < length xs"
        by (metis slices_stop)
      from "1.prems" False \<open>i < length xs \<and> 0 < step\<close>
      have "b = take step (drop i xs) \<or> b \<in> set (butlast (slices xs step (i + step)))"
        by (simp add: slices_step)
      then show ?thesis
        using more "1.IH" \<open>i < length xs \<and> 0 < step\<close> by auto
    qed
  next
    case False
    with "1.prems" show ?thesis
      by (simp add: slices_stop)
  qed
qed

lemma slices_nth:
  "k < length (slices xs step i) \<Longrightarrow>
   slices xs step i ! k = take step (drop (i + k * step) xs)"
proof (induction xs step i arbitrary: k rule: slices.induct)
  case (1 xs step i)
  show ?case
  proof (cases "i < length xs \<and> 0 < step")
    case True
    show ?thesis
    proof (cases k)
      case 0
      with True show ?thesis
        by (simp add: slices_step)
    next
      case (Suc j)
      with "1.prems" True have "j < length (slices xs step (i + step))"
        by (simp add: slices_step)
      with True have "slices xs step (i + step) ! j = take step (drop (i + step + j * step) xs)"
        by (rule "1.IH")
      with True Suc show ?thesis
        by (simp add: slices_step ac_simps)
    qed
  next
    case False
    with "1.prems" show ?thesis
      by (simp add: slices_stop)
  qed
qed

lemma apply_ai_filters_split:
  assumes "0 < batch_size cfg"
  shows "apply_ai_filters cfg results tweets w =
     (Inr (map fst (filter (\<lambda>x. ai_passes cfg (snd x)) (indexed results tweets)),
           map fst (filter (\<lambda>x. \<not> ai_passes cfg (snd x)) (indexed results tweets))),
      w\<lparr>heap := foldl (ai_write cfg) (heap w) (indexed results tweets),
        gathered := gathered w @ slices tweets (nat (batch_size cfg)) 0\<rparr>)"
proof -
  from assms have "0 < nat (batch_size cfg)"
    by simp
  then have "concat (slices (indexed results tweets) (nat (batch_size cfg)) 0) =
      indexed results tweets"
    by (simp add: slices_concat)
  with assms show ?thesis
    by (simp add: apply_ai_filters_def batch_loop_split Let_def)
qed

lemma foldl_ai_write_other:
  "r \<notin> fst ` set zs \<Longrightarrow> foldl (ai_write cfg) h zs r = h r"
  by (induction zs arbitrary: h) (auto simp add: ai_write_def)

lemma foldl_ai_write_nth:
  "distinct (map fst zs) \<Longrightarrow> k < length zs \<Longrightarrow>
   foldl (ai_write cfg) h zs (fst (zs ! k)) = ai_annotate cfg (h (fst (zs ! k)), snd (zs ! k))"
proof (induction zs arbitrary: h k)
  case Nil
  then show ?case by simp
next
  case (Cons z zs)
  show ?case
  proof (cases k)
    case 0
    from Cons.prems have "fst z \<notin> fst ` set zs"
      by simp
    then have a: "foldl (ai_write cfg) (ai_write cfg h z) zs (fst z) = ai_write cfg h z (fst z)"
      by (rule foldl_ai_write_other)
    have b: "ai_write cfg h z (fst z) = ai_annotate cfg (h (fst z), snd z)"
      by (simp add: ai_write_def)
    show ?thesis
      by (simp add: 0 a b)
  next
    case (Suc j)
    with Cons.prems have j: "j < length zs" and d: "distinct (map fst zs)"
      and ne: "fst (zs ! j) \<noteq> fst z"
      by (auto simp add: image_iff) (metis nth_mem)
    from d j have a: "foldl (ai_write cfg) (ai_write cfg h z) zs (fst (zs ! j)) =
        ai_annotate cfg (ai_write cfg h z (fst (zs ! j)), snd (zs ! j))"
      by (rule Cons.IH)
    from ne have b: "ai_write cfg h z (fst (zs ! j)) = h (fst (zs ! j))"
      by (simp add: ai_write_def)
    show ?thesis
      by (simp add: Suc a b)
  qed
qed

lemma mset_partition_map:
  "mset (map g (filter P xs)) + mset (map g (filter (\<lambda>x. \<not> P x) xs)) = mset (map g xs)"
  by (induction xs) simp_all

lemma filter_batch_rules_only:
  assumes "\<not> (ai_enabled cfg \<and> rule_passed cfg uni w posts \<noteq> [])"
  shows "filter_batch cfg uni results posts w =
     (Inr (rule_passed cfg uni w posts, filter (\<lambda>r. \<not> rule_ok cfg uni (heap w) r) posts),
      w\<lparr>heap := foldl (rule_write cfg uni) (heap w)
                    (filter (\<lambda>r. \<not> rule_ok cfg uni (heap w) r) posts)\<rparr>)"
proof (cases "posts = []")
  case True
  then show ?thesis
    by (simp add: filter_batch_def rule_passed_def)
next
  case False
  with assms show ?thesis
    by (auto simp add: filter_batch_def apply_rule_filters_split Let_def)
qed

lemma filter_batch_ai:
  assumes "0 < batch_size cfg" and "ai_enabled cfg" and "rule_passed cfg uni w posts \<noteq> []"
  shows "filter_batch cfg uni results posts w =
     (Inr (map fst (filter (\<lambda>x. ai_passes cfg (snd x))
                      (indexed results (rule_passed cfg uni w posts))),
           filter (\<lambda>r. \<not> rule_ok cfg uni (heap w) r) posts @
           map fst (filter (\<lambda>x. \<not> ai_passes cfg (snd x))
                      (indexed results (rule_passed cfg uni w posts)))),
      w\<lparr>heap := foldl (ai_write cfg)
                    (foldl (rule_write cfg uni) (heap w)
                       (filter (\<lambda>r. \<not> rule_ok cfg uni (heap w) r) posts))
                    (indexed results (rule_passed cfg uni w posts)),
        gathered := gathered w @ slices (rule_passed cfg uni w posts) (nat (batch_size cfg)) 0\<rparr>)"
proof -
  from assms(3) have "posts \<noteq> []"
    by (auto simp add: rule_passed_def)
  with assms(2,3) show ?thesis
    by (simp add: filter_batch_def apply_rule_filters_split Let_def
        apply_ai_filters_split [OF assms(1)])
qed

lemma filter_batch_negative:
  assumes "batch_size cfg < 0" and "ai_enabled cfg" and "rule_passed cfg uni w posts \<noteq> []"
  shows "fst (filter_batch cfg uni results posts w) =
     Inr ([], filter (\<lambda>r. \<not> rule_ok cfg uni (heap w) r) posts)"
proof -
  from assms(3) have "posts \<noteq> []"
    by (auto simp add: rule_passed_def)
  with assms show ?thesis
    by (simp add: filter_batch_def apply_rule_filters_split Let_def apply_ai_filters_def)
qed

lemma filter_batch_zero:
  assumes "batch_size cfg = 0" and "ai_enabled cfg" and "rule_passed cfg uni w posts \<noteq> []"
  shows "fst (filter_batch cfg uni results posts w) =
     Inl (Exn ValueError (ustr ''range() arg 3 must not be zero''))"
proof -
  from assms(3) have "posts \<noteq> []"
    by (auto simp add: rule_passed_def)
  with assms show ?thesis
    by (simp add: filter_batch_def apply_rule_filters_split Let_def apply_ai_filters_def)
qed

lemma sample_posts_pass:
  "rule_ok ai_config sample_uni (heap sample_world) r"
proof -
  have "check_rules ai_config sample_uni (create_tweet (ustr ''Great stuff!'') False False []) =
      rule_pass"
    by (simp add: ai_config_def default_config_def sample_uni_def create_tweet_def rule_eval
        rule_pass_def)
  then show ?thesis
    by (simp add: rule_ok_def sample_world_def rule_pass_def)
qed

lemma sample_rule_passed: "rule_passed ai_config sample_uni sample_world posts = posts"
  by (simp add: rule_passed_def sample_posts_pass)

lemma sample_rule_passed_negative:
  "rule_passed (ai_config\<lparr>batch_size := - 1\<rparr>) sample_uni sample_world posts = posts"
proof -
  have "rule_ok (ai_config\<lparr>batch_size := - 1\<rparr>) sample_uni (heap sample_world) =
      rule_ok ai_config sample_uni (heap sample_world)"
    by (rule ext) (simp add: rule_ok_def check_rules_def Let_def)
  then show ?thesis
    by (simp add: rule_passed_def sample_posts_pass)
qed

section \<open>Batches, order and the partition of the input\<close>

text \<open>
  C9, as stated: the AI stage partitions every list of rule-passed posts into batches of
  size batchSize. The batch size is read from the configuration as it is; with the
  value -1 the loop body never runs: on five posts no call of gather is made and no
  post is returned in either list.
\<close>

theorem no_batches_counterexample:
  "gathered (snd (apply_ai_filters (ai_config\<lparr>batch_size := - 1\<rparr>) sample_results five_posts
      sample_world)) = [] \<and>
   fst (apply_ai_filters (ai_config\<lparr>batch_size := - 1\<rparr>) sample_results five_posts
      sample_world) = Inr ([], [])"
  by (simp add: apply_ai_filters_def ai_config_def sample_world_def)

text \<open>
  C9, amended. For a batch size of at least 1 the AI stage makes its calls of gather, one
  after the other, on the slices of the rule-passed posts that start at 0, batchSize,
  2 * batchSize, ...: the batches concatenate to the input, none is empty or longer
  than batchSize, and all but the last have exactly batchSize posts. Its passed and its
  filtered output are the posts whose task passes, and those whose task does not, each
  in input order. When the AI stage runs, the pipeline returns the rule-filtered posts in
  input order followed by the AI-filtered ones.
\<close>

theorem batches_in_order:
  assumes "0 < batch_size cfg"
  shows
    "(\<exists>calls.
        gathered (snd (apply_ai_filters cfg results tweets w)) = gathered w @ calls \<and>
        concat calls = tweets \<and>
        (\<forall>k < length calls.
           calls ! k = take (nat (batch_size cfg)) (drop (k * nat (batch_size cfg)) tweets)) \<and>
        (\<forall>b \<in> set calls. 0 < length b \<and> length b \<le> nat (batch_size cfg)) \<and>
        (\<forall>b \<in> set (butlast calls). length b = nat (batch_size cfg))) \<and>
     fst (apply_ai_filters cfg results tweets w) =
       Inr (map fst (filter (\<lambda>x. ai_passes cfg (snd x))
                       (zip tweets (map results [0 ..< length tweets]))),
            map fst (filter (\<lambda>x. \<not> ai_passes cfg (snd x))
                       (zip tweets (map results [0 ..< length tweets])))) \<and>
     (ai_enabled cfg \<and> rule_passed cfg uni w posts \<noteq> [] \<longrightarrow>
        fst (filter_batch cfg uni results posts w) =
          Inr (map fst (filter (\<lambda>x. ai_passes cfg (snd x))
                 (zip (rule_passed cfg uni w posts)
                    (map results [0 ..< length (rule_passed cfg uni w posts)]))),
               filter (\<lambda>r. \<not> rule_ok cfg uni (heap w) r) posts @
               map fst (filter (\<lambda>x. \<not> ai_passes cfg (snd x))
                 (zip (rule_passed cfg uni w posts)
                    (map results [0 ..< length (rule_passed cfg uni w posts)])))))"
proof (intro conjI impI)
  from assms have pos: "0 < nat (batch_size cfg)"
    by simp
  define calls where "calls = slices tweets (nat (batch_size cfg)) 0"
  have "gathered (snd (apply_ai_filters cfg results tweets w)) = gathered w @ calls"
    by (simp add: apply_ai_filters_split [OF assms] calls_def)
  moreover have "concat calls = tweets"
    using pos by (simp add: calls_def slices_concat)
  moreover have "\<forall>k < length calls.
      calls ! k = take (nat (batch_size cfg)) (drop (k * nat (batch_size cfg)) tweets)"
    by (simp add: calls_def slices_nth)
  moreover have "\<forall>b \<in> set calls. 0 < length b \<and> length b \<le> nat (batch_size cfg)"
    unfolding calls_def using slices_sizes by blast
  moreover have "\<forall>b \<in> set (butlast calls). length b = nat (batch_size cfg)"
    unfolding calls_def using slices_full by blast
  ultimately show "\<exists>calls.
        gathered (snd (apply_ai_filters cfg results tweets w)) = gathered w @ calls \<and>
        concat calls = tweets \<and>
        (\<forall>k < length calls.
           calls ! k = take (nat (batch_size cfg)) (drop (k * nat (batch_size cfg)) tweets)) \<and>
        (\<forall>b \<in> set calls. 0 < length b \<and> length b \<le> nat (batch_size cfg)) \<and>
        (\<forall>b \<in> set (butlast calls). length b = nat (batch_size cfg))"
    by blast
next
  show "fst (apply_ai_filters cfg results tweets w) =
       Inr (map fst (filter (\<lambda>x. ai_passes cfg (snd x))
                       (zip tweets (map results [0 ..< length tweets]))),
            map fst (filter (\<lambda>x. \<not> ai_passes cfg (snd x))
                       (zip tweets (map results [0 ..< length tweets]))))"
    by (simp add: apply_ai_filters_split [OF assms] indexed_def)
next
  assume "ai_enabled cfg \<and> rule_passed cfg uni w posts \<noteq> []"
  then show "fst (filter_batch cfg uni results posts w) =
          Inr (map fst (filter (\<lambda>x. ai_passes cfg (snd x))
                 (zip (rule_passed cfg uni w posts)
                    (map results [0 ..< length (rule_passed cfg uni w posts)]))),
               filter (\<lambda>r. \<not> rule_ok cfg uni (heap w) r) posts @
               map fst (filter (\<lambda>x. \<not> ai_passes cfg (snd x))
                 (zip (rule_passed cfg uni w posts)
                    (map results [0 ..< length (rule_passed cfg uni w posts)]))))"
    by (simp add: filter_batch_ai [OF assms] indexed_def)
qed

theorem batches_in_order_witness:
  "gathered (snd (apply_ai_filters ai_config sample_results five_posts sample_world)) =
     [[0, 1], [2, 3], [4]] \<and>
   fst (apply_ai_filters ai_config sample_results five_posts sample_world) =
     Inr ([0, 2, 3, 4], [1])"
proof -
  have pos: "0 < batch_size ai_config"
    by (simp add: ai_config_def default_config_def)
  have bs: "nat (batch_size ai_config) = 2"
    by (simp add: ai_config_def default_config_def)
  have pol: "on_failure ai_config = ustr ''pass''"
    by (simp add: ai_config_def default_config_def)
  from batches_in_order [OF pos, of sample_results five_posts sample_world]
  obtain calls where g: "gathered (snd (apply_ai_filters ai_config sample_results five_posts
        sample_world)) = gathered sample_world @ calls"
    and c: "concat calls = five_posts"
    and n: "\<forall>k < length calls. calls ! k = take 2 (drop (k * 2) five_posts)"
    and s: "\<forall>b \<in> set calls. 0 < length b \<and> length b \<le> 2"
    and out: "fst (apply_ai_filters ai_config sample_results five_posts sample_world) =
       Inr (map fst (filter (\<lambda>x. ai_passes ai_config (snd x))
                       (zip five_posts (map sample_results [0 ..< length five_posts]))),
            map fst (filter (\<lambda>x. \<not> ai_passes ai_config (snd x))
                       (zip five_posts (map sample_results [0 ..< length five_posts]))))"
    unfolding bs by blast
  have "gathered (snd (apply_ai_filters ai_config sample_results five_posts sample_world)) =
      [[0, 1], [2, 3], [4]]"
    by (simp add: apply_ai_filters_split [OF pos] bs slices.simps five_posts_def
        sample_world_def)
  moreover from out have
    "fst (apply_ai_filters ai_config sample_results five_posts sample_world) =
      Inr ([0, 2, 3, 4], [1])"
    by (simp add: five_posts_def sample_results_def upt_rec pol scored_pass_def scored_fail_def)
  ultimately show ?thesis
    by (rule conjI)
qed

text \<open>
  C10, as stated: no post is ever dropped. With the batch size -1 and the AI stage on,
  all five posts pass the rules and the pipeline returns two empty lists.
\<close>

theorem negative_batch_size_drops_counterexample:
  "fst (filter_batch (ai_config\<lparr>batch_size := - 1\<rparr>) sample_uni sample_results five_posts
     sample_world) = Inr ([], []) \<and>
   mset ([] @ []) \<noteq> mset five_posts"
proof -
  have "batch_size (ai_config\<lparr>batch_size := - 1\<rparr>) < 0"
    by simp
  moreover have "ai_enabled (ai_config\<lparr>batch_size := - 1\<rparr>)"
    by (simp add: ai_config_def)
  moreover have
    "rule_passed (ai_config\<lparr>batch_size := - 1\<rparr>) sample_uni sample_world five_posts \<noteq> []"
    by (simp add: sample_rule_passed_negative) (simp add: five_posts_def)
  ultimately have "fst (filter_batch (ai_config\<lparr>batch_size := - 1\<rparr>) sample_uni sample_results
      five_posts sample_world) =
      Inr ([], filter (\<lambda>r. \<not> rule_ok (ai_config\<lparr>batch_size := - 1\<rparr>) sample_uni
                               (heap sample_world) r) five_posts)"
    by (rule filter_batch_negative)
  moreover have "filter (\<lambda>r. \<not> rule_ok (ai_config\<lparr>batch_size := - 1\<rparr>) sample_uni
                               (heap sample_world) r) five_posts = []"
    using sample_rule_passed_negative [of five_posts]
    by (simp add: rule_passed_def filter_empty_conv filter_id_conv)
  ultimately show ?thesis
    by (simp add: five_posts_def)
qed

text \<open>
  C10, amended. When the batch size is at least 1, or the AI stage is off, the pipeline
  returns a pair of lists for every input and whatever the tasks deliver, a result or an
  exception each, and the two lists together hold exactly the posts of the input, each
  as often as the input does.
\<close>

theorem filter_batch_partitions:
  assumes "ai_enabled cfg \<longrightarrow> 0 < batch_size cfg"
  shows "\<exists>p f. fst (filter_batch cfg uni results posts w) = Inr (p, f) \<and>
     mset (p @ f) = mset posts"
proof (cases "ai_enabled cfg \<and> rule_passed cfg uni w posts \<noteq> []")
  case True
  define pr where "pr = rule_passed cfg uni w posts"
  define fr where "fr = filter (\<lambda>r. \<not> rule_ok cfg uni (heap w) r) posts"
  define pa where "pa = map fst (filter (\<lambda>x. ai_passes cfg (snd x)) (indexed results pr))"
  define fa where "fa = map fst (filter (\<lambda>x. \<not> ai_passes cfg (snd x)) (indexed results pr))"
  from True assms have pos: "0 < batch_size cfg"
    by simp
  from True have run: "fst (filter_batch cfg uni results posts w) = Inr (pa, fr @ fa)"
    by (simp add: filter_batch_ai [OF pos] pr_def fr_def pa_def fa_def)
  have "mset pa + mset fa = mset (map fst (indexed results pr))"
    unfolding pa_def fa_def by (rule mset_partition_map)
  then have ai: "mset pa + mset fa = mset pr"
    by (simp only: map_fst_indexed)
  have "mset (map id (filter (rule_ok cfg uni (heap w)) posts)) +
        mset (map id (filter (\<lambda>r. \<not> rule_ok cfg uni (heap w) r) posts)) = mset (map id posts)"
    by (rule mset_partition_map)
  then have rl: "mset pr + mset fr = mset posts"
    by (simp add: pr_def fr_def rule_passed_def)
  have "mset (pa @ fr @ fa) = (mset pa + mset fa) + mset fr"
    by (simp add: ac_simps)
  also have "\<dots> = mset pr + mset fr"
    by (simp only: ai)
  also have "\<dots> = mset posts"
    by (rule rl)
  finally have "mset (pa @ fr @ fa) = mset posts" .
  with run show ?thesis
    by blast
next
  case False
  have "mset (map id (filter (rule_ok cfg uni (heap w)) posts)) +
        mset (map id (filter (\<lambda>r. \<not> rule_ok cfg uni (heap w) r) posts)) = mset (map id posts)"
    by (rule mset_partition_map)
  then have "mset (rule_passed cfg uni w posts @
        filter (\<lambda>r. \<not> rule_ok cfg uni (heap w) r) posts) = mset posts"
    by (simp add: rule_passed_def)
  moreover have "fst (filter_batch cfg uni results posts w) =
      Inr (rule_passed cfg uni w posts, filter (\<lambda>r. \<not> rule_ok cfg uni (heap w) r) posts)"
    by (simp add: filter_batch_rules_only [OF False])
  ultimately show ?thesis
    by blast
qed

theorem filter_batch_partitions_witness:
  "\<exists>p f. fst (filter_batch ai_config sample_uni sample_results five_posts sample_world) =
       Inr (p, f) \<and>
     mset (p @ f) = mset five_posts"
proof -
  have "ai_enabled ai_config \<longrightarrow> 0 < batch_size ai_config"
    by (simp add: ai_config_def default_config_def)
  then show ?thesis
    by (rule filter_batch_partitions)
qed

section \<open>What the pipeline leaves untouched\<close>

lemma check_rules_enabled: "check_rules (cfg\<lparr>enabled := b\<rparr>) uni = check_rules cfg uni"
  by (rule ext) (simp add: check_rules_def Let_def)

lemma rule_ok_enabled: "rule_ok (cfg\<lparr>enabled := b\<rparr>) uni h = rule_ok cfg uni h"
  by (rule ext) (simp add: rule_ok_def check_rules_enabled)

lemma rule_write_enabled: "rule_write (cfg\<lparr>enabled := b\<rparr>) uni = rule_write cfg uni"
  by (intro ext) (simp add: rule_write_def rule_annotate_def check_rules_enabled)

lemma ai_passes_enabled: "ai_passes (cfg\<lparr>enabled := b\<rparr>) r = ai_passes cfg r"
  by (cases r) simp_all

lemma ai_annotate_enabled: "ai_annotate (cfg\<lparr>enabled := b\<rparr>) x = ai_annotate cfg x"
proof -
  obtain t r where x: "x = (t, r)"
    by (cases x)
  show ?thesis
    by (cases r) (simp_all add: x)
qed

lemma ai_write_enabled: "ai_write (cfg\<lparr>enabled := b\<rparr>) = ai_write cfg"
  by (intro ext) (simp add: ai_write_def ai_annotate_enabled)

lemma apply_rule_filters_enabled:
  "apply_rule_filters (cfg\<lparr>enabled := b\<rparr>) uni tweets w = apply_rule_filters cfg uni tweets w"
  by (simp add: apply_rule_filters_split rule_passed_def rule_ok_enabled rule_write_enabled)

lemma apply_ai_filters_enabled:
  "apply_ai_filters (cfg\<lparr>enabled := b\<rparr>) results tweets w =
   apply_ai_filters cfg results tweets w"
  by (simp add: apply_ai_filters_def batch_loop_split ai_passes_enabled ai_write_enabled)

lemma short_post_rejected:
  "check_rules default_config sample_uni (create_tweet (ustr ''Great stuff!'') False False []) =
   rule_failure default_config (create_tweet (ustr ''Great stuff!'') False False []) TextLength"
  by (simp add: rule_failure_def rule_eval default_config_def sample_uni_def create_tweet_def)

text \<open>
  C2, as stated: with filtering disabled in the configuration the posts come back
  unchanged as the passed list. The pipeline never reads the flag: under a disabled
  configuration a two-word post is still rejected, with its annotations written.
\<close>

theorem disabled_still_filters_counterexample:
  "fst (filter_batch (default_config\<lparr>enabled := False\<rparr>) sample_uni sample_results [0]
     sample_world) = Inr ([], [0]) \<and>
   fst (filter_batch (default_config\<lparr>enabled := False\<rparr>) sample_uni sample_results [0]
     sample_world) \<noteq> Inr ([0], []) \<and>
   filtered_reason (heap (snd (filter_batch (default_config\<lparr>enabled := False\<rparr>) sample_uni
     sample_results [0] sample_world)) 0) = PStr (reason_short_words 20) \<and>
   quality_issues (heap (snd (filter_batch (default_config\<lparr>enabled := False\<rparr>) sample_uni
     sample_results [0] sample_world)) 0) = PList [PStr (ustr ''too_short'')]"
proof -
  have off: "\<not> (ai_enabled (default_config\<lparr>enabled := False\<rparr>) \<and>
      rule_passed (default_config\<lparr>enabled := False\<rparr>) sample_uni sample_world [0] \<noteq> [])"
    by (simp add: default_config_def)
  have no: "\<not> rule_ok (default_config\<lparr>enabled := False\<rparr>) sample_uni (heap sample_world) r" for r
    by (simp add: rule_ok_enabled rule_ok_def sample_world_def short_post_rejected
        rule_failure_def)
  have ann: "rule_annotate (default_config\<lparr>enabled := False\<rparr>) sample_uni
        (create_tweet (ustr ''Great stuff!'') False False []) =
      (create_tweet (ustr ''Great stuff!'') False False [])
        \<lparr>filtered_reason := PStr (reason_short_words 20),
         quality_issues := PList [PStr (ustr ''too_short'')]\<rparr>"
    by (simp add: rule_annotate_def check_rules_enabled short_post_rejected rule_failure_def)
      (simp add: str_eval create_tweet_def default_config_def)
  show ?thesis
    by (simp add: filter_batch_rules_only [OF off] rule_passed_def no foldl_rule_write)
      (simp add: sample_world_def rule_write_def ann)
qed

text \<open>
  C2, amended. For the empty list the pipeline returns two empty lists and leaves the
  store as it is. The flag \<^verbatim>\<open>enabled\<close> of the configuration has no effect on the
  pipeline: with the flag set either way the result is the same, for every input.
\<close>

theorem empty_input_and_enabled_flag:
  "filter_batch cfg uni results [] w = (Inr ([], []), w) \<and>
   filter_batch (cfg\<lparr>enabled := b\<rparr>) uni results posts w = filter_batch cfg uni results posts w"
  by (simp add: filter_batch_def apply_rule_filters_enabled apply_ai_filters_enabled Let_def)

theorem empty_input_and_enabled_flag_witness:
  "filter_batch (default_config\<lparr>enabled := False\<rparr>) sample_uni sample_results [] sample_world =
     (Inr ([], []), sample_world) \<and>
   filter_batch (default_config\<lparr>enabled := False\<rparr>) sample_uni sample_results five_posts
     sample_world =
   filter_batch default_config sample_uni sample_results five_posts sample_world"
  using empty_input_and_enabled_flag
      [where cfg = "default_config\<lparr>enabled := False\<rparr>" and uni = sample_uni
         and results = sample_results and w = sample_world]
    empty_input_and_enabled_flag
      [where cfg = default_config and b = False and uni = sample_uni
         and results = sample_results and posts = five_posts and w = sample_world]
  by blast

lemma sample_run:
  "filter_batch ai_config sample_uni sample_results posts sample_world =
     (if posts = [] then (Inr ([], []), sample_world)
      else (Inr (map fst (filter (\<lambda>x. ai_passes ai_config (snd x))
                            (indexed sample_results posts)),
                 map fst (filter (\<lambda>x. \<not> ai_passes ai_config (snd x))
                            (indexed sample_results posts))),
            sample_world
              \<lparr>heap := foldl (ai_write ai_config) (heap sample_world)
                          (indexed sample_results posts),
               gathered := slices posts 2 0\<rparr>))"
proof (cases "posts = []")
  case True
  then show ?thesis
    by (simp add: filter_batch_def)
next
  case False
  have pos: "0 < batch_size ai_config" and on: "ai_enabled ai_config"
    and bs: "nat (batch_size ai_config) = 2"
    by (simp_all add: ai_config_def default_config_def)
  from False have ne: "rule_passed ai_config sample_uni sample_world posts \<noteq> []"
    by (simp add: sample_rule_passed)
  have none: "filter (\<lambda>r. \<not> rule_ok ai_config sample_uni (heap sample_world) r) posts = []"
    by (simp add: sample_posts_pass)
  have "gathered sample_world = []"
    by (simp add: sample_world_def)
  with False show ?thesis
    by (simp add: filter_batch_ai [OF pos on ne] sample_rule_passed none bs)
qed

text \<open>
  C1, as stated: no field of a passed post differs from its value at input. A post that
  the scorer passes with score 85 enters with no quality score and is returned in the
  passed list with quality score 85.
\<close>

theorem passed_post_scored_counterexample:
  "fst (filter_batch ai_config sample_uni sample_results [0] sample_world) = Inr ([0], []) \<and>
   quality_score (heap sample_world 0) = None \<and>
   quality_score (heap (snd (filter_batch ai_config sample_uni sample_results [0] sample_world)) 0)
     = Some (Fin 85)"
  by (simp add: sample_run indexed_def sample_results_def scored_pass_def ai_write_def)
    (simp add: sample_world_def create_tweet_def)

text \<open>
  The assignments reach the object, not a copy of it: when the same post is listed
  twice and the scorer passes it at the first position and fails it at the second,
  the post is in both lists and carries the score, the issues and the reason of the
  failure.
\<close>

lemma repeated_post_example:
  "fst (filter_batch ai_config sample_uni sample_results [0, 0] sample_world) =
     Inr ([0], [0]) \<and>
   quality_score (heap (snd (filter_batch ai_config sample_uni sample_results [0, 0]
     sample_world)) 0) = Some (Fin 25) \<and>
   quality_issues (heap (snd (filter_batch ai_config sample_uni sample_results [0, 0]
     sample_world)) 0) = PList [PStr (ustr ''low_information'')] \<and>
   filtered_reason (heap (snd (filter_batch ai_config sample_uni sample_results [0, 0]
     sample_world)) 0) = PStr (ustr ''Too vague'')"
  by (simp add: sample_run indexed_def sample_results_def scored_pass_def scored_fail_def
      ai_write_def upt_rec)

text \<open>
  C1, amended. In a run over a list in which no post occurs twice, every post of the
  passed list is a post of the input, and the store holds it as it was at input but for
  the quality score. If the AI stage ran, the post is one of the rule-passed posts: when
  its task returned a result, the result passes and its score is now the post's quality
  score; when its task raised, the failure policy is pass and the post is as it was.
  If the AI stage did not run, the post is as it was. The issues and the reason of such
  a post are not written.
\<close>

theorem passed_posts_only_scored:
  assumes "fst (filter_batch cfg uni results posts w) = Inr (p, f)"
    and "distinct posts"
    and "r \<in> set p"
  shows "r \<in> set posts \<and>
     (if ai_enabled cfg \<and> rule_passed cfg uni w posts \<noteq> []
      then \<exists>k < length (rule_passed cfg uni w posts).
             rule_passed cfg uni w posts ! k = r \<and>
             (case results k of
                Inr res \<Rightarrow>
                  passed res \<and>
                  heap (snd (filter_batch cfg uni results posts w)) r =
                    (heap w r)\<lparr>quality_score := score res\<rparr>
              | Inl e \<Rightarrow>
                  on_failure cfg = ustr ''pass'' \<and>
                  heap (snd (filter_batch cfg uni results posts w)) r = heap w r)
      else heap (snd (filter_batch cfg uni results posts w)) r = heap w r)"
proof (cases "ai_enabled cfg \<and> rule_passed cfg uni w posts \<noteq> []")
  case False
  from assms(1) have p: "p = rule_passed cfg uni w posts"
    by (simp add: filter_batch_rules_only [OF False])
  with assms(3) have in_posts: "r \<in> set posts" and ok: "rule_ok cfg uni (heap w) r"
    by (simp_all add: rule_passed_def)
  have "heap (snd (filter_batch cfg uni results posts w)) r = heap w r"
    using ok by (simp add: filter_batch_rules_only [OF False] foldl_rule_write)
  with False in_posts show ?thesis
    by simp
next
  case True
  define pr where "pr = rule_passed cfg uni w posts"
  define fr where "fr = filter (\<lambda>r. \<not> rule_ok cfg uni (heap w) r) posts"
  define zs where "zs = indexed results pr"
  from True have on: "ai_enabled cfg" and ne: "rule_passed cfg uni w posts \<noteq> []"
    by simp_all
  have pos: "0 < batch_size cfg"
  proof (rule ccontr)
    assume "\<not> 0 < batch_size cfg"
    then consider "batch_size cfg = 0" | "batch_size cfg < 0"
      by linarith
    then show False
    proof cases
      case 1
      from filter_batch_zero [OF 1 on ne, of results] assms(1) show False
        by simp
    next
      case 2
      from filter_batch_negative [OF 2 on ne, of results] assms(1,3) show False
        by simp
    qed
  qed
  have run: "filter_batch cfg uni results posts w =
     (Inr (map fst (filter (\<lambda>x. ai_passes cfg (snd x)) zs),
           fr @ map fst (filter (\<lambda>x. \<not> ai_passes cfg (snd x)) zs)),
      w\<lparr>heap := foldl (ai_write cfg) (foldl (rule_write cfg uni) (heap w) fr) zs,
        gathered := gathered w @ slices pr (nat (batch_size cfg)) 0\<rparr>)"
    unfolding zs_def pr_def fr_def by (rule filter_batch_ai [OF pos on ne])
  with assms(1,3) have "r \<in> set (map fst (filter (\<lambda>x. ai_passes cfg (snd x)) zs))"
    by simp
  then obtain x where "x \<in> set zs" and xp: "ai_passes cfg (snd x)" and xr: "fst x = r"
    by auto
  then obtain k where k: "k < length zs" and zk: "zs ! k = x"
    by (auto simp add: in_set_conv_nth)
  from k have kp: "k < length pr"
    by (simp add: zs_def length_indexed)
  then have nth: "zs ! k = (pr ! k, results k)"
    by (simp add: zs_def nth_indexed)
  with zk xr xp have rk: "pr ! k = r" and pass: "ai_passes cfg (results k)"
    by auto
  from kp rk have in_pr: "r \<in> set pr"
    by (metis nth_mem)
  then have in_posts: "r \<in> set posts" and ok: "rule_ok cfg uni (heap w) r"
    by (simp_all add: pr_def rule_passed_def)
  from assms(2) have "distinct (map fst zs)"
    by (simp add: zs_def map_fst_indexed pr_def rule_passed_def)
  from foldl_ai_write_nth [OF this k, of cfg "foldl (rule_write cfg uni) (heap w) fr"]
  have "heap (snd (filter_batch cfg uni results posts w)) r =
      ai_annotate cfg (foldl (rule_write cfg uni) (heap w) fr r, results k)"
    by (simp add: run nth rk)
  moreover from ok have "foldl (rule_write cfg uni) (heap w) fr r = heap w r"
    by (simp add: foldl_rule_write fr_def)
  ultimately have final: "heap (snd (filter_batch cfg uni results posts w)) r =
      ai_annotate cfg (heap w r, results k)"
    by simp
  have "case results k of
          Inr res \<Rightarrow>
            passed res \<and>
            heap (snd (filter_batch cfg uni results posts w)) r =
              (heap w r)\<lparr>quality_score := score res\<rparr>
        | Inl e \<Rightarrow>
            on_failure cfg = ustr ''pass'' \<and>
            heap (snd (filter_batch cfg uni results posts w)) r = heap w r"
    using pass final by (cases "results k") simp_all
  with kp rk have "\<exists>k < length pr. pr ! k = r \<and>
      (case results k of
          Inr res \<Rightarrow>
            passed res \<and>
            heap (snd (filter_batch cfg uni results posts w)) r =
              (heap w r)\<lparr>quality_score := score res\<rparr>
        | Inl e \<Rightarrow>
            on_failure cfg = ustr ''pass'' \<and>
            heap (snd (filter_batch cfg uni results posts w)) r = heap w r)"
    by blast
  with True in_posts show ?thesis
    by (simp add: pr_def)
qed

theorem passed_posts_only_scored_witness:
  "heap (snd (filter_batch ai_config sample_uni sample_results five_posts sample_world)) 2 =
     (heap sample_world 2)\<lparr>quality_score := Some (Fin 85)\<rparr> \<and>
   heap (snd (filter_batch ai_config sample_uni sample_results five_posts sample_world)) 3 =
     heap sample_world 3"
proof -
  have pol: "on_failure ai_config = ustr ''pass''"
    by (simp add: ai_config_def default_config_def)
  have run: "fst (filter_batch ai_config sample_uni sample_results five_posts sample_world) =
      Inr ([0, 2, 3, 4], [1])"
    by (simp add: sample_run five_posts_def indexed_def sample_results_def scored_pass_def
        scored_fail_def upt_rec pol)
  have d: "distinct five_posts"
    by (simp add: five_posts_def)
  have en: "ai_enabled ai_config" and ne: "five_posts \<noteq> []"
    by (simp_all add: five_posts_def ai_config_def)
  have only: "k = j" if "k < length five_posts" and "five_posts ! k = j" for k j
    using that by (auto simp add: five_posts_def nth_Cons split: nat.splits)
  have "(2::nat) \<in> set [0, 2, 3, 4]"
    by simp
  from passed_posts_only_scored [OF run d this]
  have "\<exists>k < length five_posts. five_posts ! k = 2 \<and>
      (case sample_results k of
         Inr res \<Rightarrow>
           passed res \<and>
           heap (snd (filter_batch ai_config sample_uni sample_results five_posts
             sample_world)) 2 = (heap sample_world 2)\<lparr>quality_score := score res\<rparr>
       | Inl e \<Rightarrow>
           on_failure ai_config = ustr ''pass'' \<and>
           heap (snd (filter_batch ai_config sample_uni sample_results five_posts
             sample_world)) 2 = heap sample_world 2)"
    by (simp add: sample_rule_passed en ne)
  then obtain k where "k < length five_posts" and "five_posts ! k = 2"
    and c: "case sample_results k of
         Inr res \<Rightarrow>
           passed res \<and>
           heap (snd (filter_batch ai_config sample_uni sample_results five_posts
             sample_world)) 2 = (heap sample_world 2)\<lparr>quality_score := score res\<rparr>
       | Inl e \<Rightarrow>
           on_failure ai_config = ustr ''pass'' \<and>
           heap (snd (filter_batch ai_config sample_uni sample_results five_posts
             sample_world)) 2 = heap sample_world 2"
    by blast
  then have "k = 2"
    by (simp add: only)
  with c have two: "heap (snd (filter_batch ai_config sample_uni sample_results five_posts
      sample_world)) 2 = (heap sample_world 2)\<lparr>quality_score := Some (Fin 85)\<rparr>"
    by (simp add: sample_results_def scored_pass_def)
  have "(3::nat) \<in> set [0, 2, 3, 4]"
    by simp
  from passed_posts_only_scored [OF run d this]
  have "\<exists>k < length five_posts. five_posts ! k = 3 \<and>
      (case sample_results k of
         Inr res \<Rightarrow>
           passed res \<and>
           heap (snd (filter_batch ai_config sample_uni sample_results five_posts
             sample_world)) 3 = (heap sample_world 3)\<lparr>quality_score := score res\<rparr>
       | Inl e \<Rightarrow>
           on_failure ai_config = ustr ''pass'' \<and>
           heap (snd (filter_batch ai_config sample_uni sample_results five_posts
             sample_world)) 3 = heap sample_world 3)"
    by (simp add: sample_rule_passed en ne)
  then obtain j where "j < length five_posts" and "five_posts ! j = 3"
    and c': "case sample_results j of
         Inr res \<Rightarrow>
           passed res \<and>
           heap (snd (filter_batch ai_config sample_uni sample_results five_posts
             sample_world)) 3 = (heap sample_world 3)\<lparr>quality_score := score res\<rparr>
       | Inl e \<Rightarrow>
           on_failure ai_config = ustr ''pass'' \<and>
           heap (snd (filter_batch ai_config sample_uni sample_results five_posts
             sample_world)) 3 = heap sample_world 3"
    by blast
  then have "j = 3"
    by (simp add: only)
  with c' have "heap (snd (filter_batch ai_config sample_uni sample_results five_posts
      sample_world)) 3 = heap sample_world 3"
    by (simp add: sample_results_def)
  with two show ?thesis
    by (rule conjI)
qed

end
